theory Spec2Isabelle
  imports Main
begin

section \<open>Seasonal catalogue reconciliation (library/discover.cpp)\<close>

text \<open>
  A shallow embedding of \<^verbatim>\<open>library::SeasonDatabase\<close>: \<^verbatim>\<open>LoadFile\<close>,
  \<^verbatim>\<open>LoadString\<close>, \<^verbatim>\<open>LoadSeasonFromMemory\<close>, \<^verbatim>\<open>IsRefreshRequired\<close>,
  \<^verbatim>\<open>Reset\<close> and \<^verbatim>\<open>Review\<close>.
  The member data of the object, the global \<^verbatim>\<open>AnimeDatabase.items\<close> and the calls that
  leave the program (user interface, HTTP, saving the database) are one state record that
  every operation takes and returns. Functions of the repository that the two source files
  only call (the XML parser, the service registry, the anime database's methods, the date
  helpers) are the fields of an environment record, so the theorems hold for whatever they
  compute; one reference environment is defined to run the model on concrete inputs.
\<close>

subsection \<open>Data\<close>

type_synonym enum_t = nat
type_synonym time_t = int

datatype SeasonName = kUnknown | kWinter | kSpring | kSummer | kFall

record Season =
  season_name :: SeasonName
  season_year :: nat

record Date =
  date_year :: nat
  date_month :: nat
  date_day :: nat

text \<open>
  Modelled from the spec: \<^verbatim>\<open>anime::Item\<close> (library/anime_item.h is not among the
  sources). The LibraryRecord of the data model: a locally unique integer identifier, a
  mapping from service-id to external-id, the last-modified timestamp, title, type, image
  URL, trailer URL, producers, start date and synopsis. The mapping is kept as an
  association list ordered by service-id. The synopsis may be unset (\<open>None\<close>), which is
  distinct from present but empty (\<open>Some []\<close>).
\<close>

record Item =
  item_id :: int
  item_source :: enum_t
  item_ids :: "(enum_t \<times> string) list"
  item_last_modified :: time_t
  item_title :: string
  item_type :: int
  item_image_url :: string
  item_trailer_url :: string
  item_producers :: string
  item_date_start :: Date
  item_synopsis :: "string option"

text \<open>
  Modelled from the spec: \<^verbatim>\<open>Item::GetSynopsis()\<close>, which hands out the text of the
  synopsis; an unset synopsis reads as the empty string.
\<close>

definition GetSynopsis :: "Item \<Rightarrow> string" where
  "GetSynopsis anime_item = (case item_synopsis anime_item of None \<Rightarrow> [] | Some s \<Rightarrow> s)"

type_synonym Database = "(int \<times> Item) list"

text \<open>
  A parsed document as pugixml hands it out: an element has a name, attributes, the text
  that \<^verbatim>\<open>child_value()\<close> returns, and child elements in document order. A null
  handle is \<open>None\<close>.
\<close>

datatype xml_node =
  XmlNode (node_name: string) (node_attributes: "(string \<times> string) list")
    (node_value: string) (node_children: "xml_node list")

text \<open>What the operations do outside the two objects, in the order they do it.\<close>

datatype event =
    SaveDatabase
  | ChangeStatusText string
  | EnableInput bool
  | MakeRequest string
  | DisplayErrorMessage string string

record world =
  items :: "int list"
  current_season :: Season
  remote_location :: string
  AnimeDatabase_items :: Database
  events :: "event list"

text \<open>
  The collaborators that discover.cpp calls and the sources do not define. Each field has
  the name and the argument order of the call it stands for; the database's methods take
  the database's records as their first argument, and \<open>UpdateItem\<close> returns the
  identifier together with the new records.
\<close>

record env =
  xml_load_string :: "string \<Rightarrow> xml_node option"
  ToTime :: "string \<Rightarrow> time_t"
  ToInt :: "string \<Rightarrow> int"
  SeasonFromString :: "string \<Rightarrow> Season"
  GetServiceIdByName :: "string \<Rightarrow> enum_t"
  GetCurrentServiceId :: enum_t
  NewItem :: Item
  FindItem :: "Database \<Rightarrow> string \<Rightarrow> enum_t \<Rightarrow> Item option"
  FindItemById :: "Database \<Rightarrow> int \<Rightarrow> Item option"
  UpdateItem :: "Database \<Rightarrow> Item \<Rightarrow> int \<times> Database"
  IsValidDate :: "Date \<Rightarrow> bool"
  IsNsfw :: "Item \<Rightarrow> bool"
  date_le :: "Date \<Rightarrow> Date \<Rightarrow> bool"
  GetInterval :: "Season \<Rightarrow> Date \<times> Date"
  ReadFromFile :: "string \<Rightarrow> string option"
  GetPath_DatabaseSeason :: string
  StrToWstr :: "string \<Rightarrow> string"

subsection \<open>std::map with enum keys\<close>

text \<open>
  \<^verbatim>\<open>std::map<enum_t, std::wstring>\<close> iterates in ascending key order whatever the
  order of the insertions. \<open>map_assign k v m\<close> is \<^verbatim>\<open>m[k] = v\<close>; \<open>map_subscript k m\<close> is
  the read \<^verbatim>\<open>m[k]\<close>, which inserts an empty string under a missing key.
\<close>

fun map_assign :: "enum_t \<Rightarrow> 'v \<Rightarrow> (enum_t \<times> 'v) list \<Rightarrow> (enum_t \<times> 'v) list" where
  "map_assign k v [] = [(k, v)]"
| "map_assign k v ((k', v') # m) =
     (if k < k' then (k, v) # (k', v') # m
      else if k = k' then (k, v) # m
      else (k', v') # map_assign k v m)"

definition map_subscript ::
  "enum_t \<Rightarrow> (enum_t \<times> string) list \<Rightarrow> string \<times> (enum_t \<times> string) list" where
  "map_subscript k m =
     (case map_of m k of Some v \<Rightarrow> (v, m) | None \<Rightarrow> ([], map_assign k [] m))"

subsection \<open>XML access (pugixml handles and base/xml.cpp)\<close>

definition child :: "xml_node option \<Rightarrow> string \<Rightarrow> xml_node option" where
  "child node n =
     (case node of None \<Rightarrow> None
      | Some x \<Rightarrow> find (\<lambda>c. node_name c = n) (node_children x))"

definition child_value :: "xml_node option \<Rightarrow> string" where
  "child_value node = (case node of None \<Rightarrow> [] | Some x \<Rightarrow> node_value x)"

definition attribute_as_string :: "xml_node \<Rightarrow> string \<Rightarrow> string" where
  "attribute_as_string node n =
     (case map_of (node_attributes node) n of None \<Rightarrow> [] | Some v \<Rightarrow> v)"

text \<open>
  \<^verbatim>\<open>foreach_xmlnode_(node, parent, name)\<close> visits the children of \<open>parent\<close> called
  \<open>name\<close>, first to last.
\<close>

definition foreach_xmlnode :: "xml_node option \<Rightarrow> string \<Rightarrow> xml_node list" where
  "foreach_xmlnode parent n =
     (case parent of None \<Rightarrow> []
      | Some x \<Rightarrow> filter (\<lambda>c. node_name c = n) (node_children x))"

text \<open>
  discover.cpp reads fields with \<^verbatim>\<open>XmlReadStrValue\<close> and \<^verbatim>\<open>XmlReadIntValue\<close>;
  base/xml.cpp defines them under the names \<^verbatim>\<open>XmlReadStr\<close> and \<^verbatim>\<open>XmlReadInt\<close>.
\<close>

definition XmlReadStr :: "xml_node option \<Rightarrow> string \<Rightarrow> string" where
  "XmlReadStr node n = child_value (child node n)"

definition XmlReadInt :: "env \<Rightarrow> xml_node option \<Rightarrow> string \<Rightarrow> int" where
  "XmlReadInt E node n = ToInt E (child_value (child node n))"

subsection \<open>SeasonDatabase::LoadString\<close>

definition SetId :: "string \<Rightarrow> enum_t \<Rightarrow> Item \<Rightarrow> Item" where
  "SetId ident service it = it\<lparr>item_ids := map_assign service ident (item_ids it)\<rparr>"

text \<open>Lines 100 to 107: the identifier tags of one entry, folded into the map.\<close>

definition read_id_map :: "env \<Rightarrow> xml_node \<Rightarrow> (enum_t \<times> string) list" where
  "read_id_map E node =
     foldl (\<lambda>id_map id_node.
              map_assign (GetServiceIdByName E (attribute_as_string id_node ''name''))
                (node_value id_node) id_map)
       [] (foreach_xmlnode (Some node) ''id'')"

text \<open>Lines 112 to 116: the pointer is the last lookup's result, the loop leaves at the
  first lookup that succeeds.\<close>

fun find_by_id_map :: "env \<Rightarrow> Database \<Rightarrow> (enum_t \<times> string) list \<Rightarrow> Item option" where
  "find_by_id_map E db [] = None"
| "find_by_id_map E db ((service, ident) # rest) =
     (case FindItem E db ident service of
        Some anime_item \<Rightarrow> Some anime_item
      | None \<Rightarrow> find_by_id_map E db rest)"

text \<open>Lines 128 to 138: the item handed to \<^verbatim>\<open>UpdateItem\<close>.\<close>

definition build_item ::
  "env \<Rightarrow> xml_node \<Rightarrow> (enum_t \<times> string) list \<Rightarrow> time_t \<Rightarrow> Item" where
  "build_item E node id_map modified =
     (foldl (\<lambda>item (service, ident). SetId ident service item)
        ((NewItem E)\<lparr>item_source := GetCurrentServiceId E\<rparr>) id_map)
       \<lparr>item_last_modified := modified,
        item_title := XmlReadStr (Some node) ''title'',
        item_type := XmlReadInt E (Some node) ''type'',
        item_image_url := XmlReadStr (Some node) ''image'',
        item_trailer_url := XmlReadStr (Some node) ''trailer'',
        item_producers := XmlReadStr (Some node) ''producers''\<rparr>"

text \<open>Lines 120 to 140, the else branch: \<open>continue\<close> leaves the state as it is.\<close>

definition update_from_node ::
  "env \<Rightarrow> time_t \<Rightarrow> xml_node \<Rightarrow> (enum_t \<times> string) list \<Rightarrow> world \<Rightarrow> world" where
  "update_from_node E modified node id_map w =
     (case map_subscript (GetCurrentServiceId E) id_map of
        (current_id, id_map') \<Rightarrow>
          if current_id = [] then w
          else
            (case UpdateItem E (AnimeDatabase_items w) (build_item E node id_map' modified) of
               (anime_id, db') \<Rightarrow>
                 w\<lparr>AnimeDatabase_items := db', items := items w @ [anime_id]\<rparr>))"

text \<open>Lines 99 to 143: one pass of the loop over the \<^verbatim>\<open>anime\<close> nodes. The initial
  \<^verbatim>\<open>anime_id = anime::ID_UNKNOWN\<close> is overwritten on every path that reaches
  \<^verbatim>\<open>push_back\<close>.\<close>

definition load_anime_node :: "env \<Rightarrow> time_t \<Rightarrow> world \<Rightarrow> xml_node \<Rightarrow> world" where
  "load_anime_node E modified w node =
     (let id_map = read_id_map E node in
      case find_by_id_map E (AnimeDatabase_items w) id_map of
        Some anime_item \<Rightarrow>
          if item_last_modified anime_item \<ge> modified
          then w\<lparr>items := items w @ [item_id anime_item]\<rparr>
          else update_from_node E modified node id_map w
      | None \<Rightarrow> update_from_node E modified node id_map w)"

definition LoadString :: "env \<Rightarrow> string \<Rightarrow> world \<Rightarrow> bool \<times> world" where
  "LoadString E data w =
     (case xml_load_string E data of
        None \<Rightarrow> (False, w)
      | Some document \<Rightarrow>
          (let season_node = child (Some document) ''season'';
               w1 = w\<lparr>current_season :=
                        SeasonFromString E (XmlReadStr (child season_node ''info'') ''name'')\<rparr>;
               modified = ToTime E (XmlReadStr (child season_node ''info'') ''modified'');
               w2 = w1\<lparr>items := []\<rparr>;
               w3 = foldl (load_anime_node E modified) w2 (foreach_xmlnode season_node ''anime'');
               w4 = (if items w3 \<noteq> [] then w3\<lparr>events := events w3 @ [SaveDatabase]\<rparr> else w3)
           in (True, w4)))"

subsection \<open>The constructor, SeasonDatabase::LoadFile and SeasonDatabase::Reset\<close>

text \<open>The constructor sets the remote location; \<^verbatim>\<open>available_seasons\<close> is read by none
  of the operations below and is left out.\<close>

definition SeasonDatabase_new :: "Season \<Rightarrow> Database \<Rightarrow> world" where
  "SeasonDatabase_new season db =
     \<lparr>items = [], current_season = season,
      remote_location = ''https://raw.githubusercontent.com/erengy/anime-seasons/master/data/'',
      AnimeDatabase_items = db, events = []\<rparr>"

text \<open>The log macros write to the log only and are not among the events.\<close>

definition LoadFile :: "env \<Rightarrow> string \<Rightarrow> world \<Rightarrow> bool \<times> world" where
  "LoadFile E filename w =
     (let path = GetPath_DatabaseSeason E @ filename in
      case ReadFromFile E path of
        None \<Rightarrow>
          (False,
           if remote_location w \<noteq> []
           then w\<lparr>events := events w @
                    [ChangeStatusText ''Downloading anime season data...'',
                     EnableInput False,
                     MakeRequest (remote_location w @ filename)]\<rparr>
           else w)
      | Some document \<Rightarrow>
          (case LoadString E (StrToWstr E document) w of
             (loaded, w') \<Rightarrow>
               if \<not> loaded
               then (False,
                     w'\<lparr>events := events w' @
                          [DisplayErrorMessage ''Could not read anime season file.'' path]\<rparr>)
               else (True, w')))"

definition Reset :: "world \<Rightarrow> world" where
  "Reset w = w\<lparr>items := [], current_season := \<lparr>season_name = kUnknown, season_year = 0\<rparr>\<rparr>"

subsection \<open>SeasonDatabase::IsRefreshRequired\<close>

definition needs_refresh :: "env \<Rightarrow> Database \<Rightarrow> int \<Rightarrow> bool" where
  "needs_refresh E db anime_id =
     (case FindItemById E db anime_id of
        Some anime_item \<Rightarrow>
          \<not> IsValidDate E (item_date_start anime_item) \<or> GetSynopsis anime_item = []
      | None \<Rightarrow> False)"

text \<open>
  The loop of lines 164 to 175 from a given \<open>count\<close>. The result is \<open>required\<close>
  together with the identifiers the loop looked up in the database, in the order of the
  lookups: \<^verbatim>\<open>break\<close> ends the lookups.
\<close>

fun refresh_loop :: "env \<Rightarrow> Database \<Rightarrow> int list \<Rightarrow> int \<Rightarrow> bool \<times> int list" where
  "refresh_loop E db [] count = (False, [])"
| "refresh_loop E db (anime_id # rest) count =
     (let count' = (if needs_refresh E db anime_id then count + 1 else count) in
      if count' > 20 then (True, [anime_id])
      else (case refresh_loop E db rest count' of
              (required, looked_up) \<Rightarrow> (required, anime_id # looked_up)))"

definition IsRefreshRequired :: "env \<Rightarrow> world \<Rightarrow> bool" where
  "IsRefreshRequired E w = fst (refresh_loop E (AnimeDatabase_items w) (items w) 0)"

subsection \<open>SeasonDatabase::Review\<close>

definition is_within_date_interval :: "env \<Rightarrow> Date \<Rightarrow> Date \<Rightarrow> Item \<Rightarrow> bool" where
  "is_within_date_interval E date_start date_end anime_item =
     (let anime_start = item_date_start anime_item in
      if date_year anime_start \<noteq> 0 \<and> date_month anime_start \<noteq> 0
      then (if date_le E date_start anime_start \<and> date_le E anime_start date_end
            then True else False)
      else False)"

definition is_nsfw :: "env \<Rightarrow> bool \<Rightarrow> Item \<Rightarrow> bool" where
  "is_nsfw E hide_nsfw anime_item = (hide_nsfw \<and> IsNsfw E anime_item)"

text \<open>Lines 207 to 212: whether the first loop erases the identifier it is looking at.\<close>

definition is_invalid_item ::
  "env \<Rightarrow> bool \<Rightarrow> Date \<Rightarrow> Date \<Rightarrow> Database \<Rightarrow> int \<Rightarrow> bool" where
  "is_invalid_item E hide_nsfw date_start date_end db anime_id =
     (case FindItemById E db anime_id of
        Some anime_item \<Rightarrow>
          is_nsfw E hide_nsfw anime_item \<or>
          (IsValidDate E (item_date_start anime_item) \<and>
           \<not> is_within_date_interval E date_start date_end anime_item)
      | None \<Rightarrow> False)"

definition erase_at :: "nat \<Rightarrow> 'a list \<Rightarrow> 'a list" where
  "erase_at i xs = take i xs @ drop (Suc i) xs"

text \<open>
  Lines 206 to 218. \<^verbatim>\<open>items.erase(items.begin() + i--)\<close> followed by the loop's
  \<^verbatim>\<open>i++\<close> leaves \<open>i\<close> where it was (at \<open>i = 0\<close> the unsigned index wraps down and
  up again), so the next pass looks at the element that moved into position \<open>i\<close>.
\<close>

function check_invalid_items ::
  "env \<Rightarrow> bool \<Rightarrow> Date \<Rightarrow> Date \<Rightarrow> Database \<Rightarrow> nat \<Rightarrow> int list \<Rightarrow> int list" where
  "check_invalid_items E hide_nsfw date_start date_end db i its =
     (if i < length its
      then (if is_invalid_item E hide_nsfw date_start date_end db (its ! i)
            then check_invalid_items E hide_nsfw date_start date_end db i (erase_at i its)
            else check_invalid_items E hide_nsfw date_start date_end db (Suc i) its)
      else its)"
  by pat_completeness auto
termination
  by (relation "measure (\<lambda>(E, hide_nsfw, date_start, date_end, db, i, its). length its - i)")
     (auto simp: erase_at_def)

text \<open>Lines 221 to 242: \<^verbatim>\<open>std::find\<close> runs over the list as it is by then, with the
  identifiers this loop has appended.\<close>

fun check_missing_items ::
  "env \<Rightarrow> bool \<Rightarrow> Date \<Rightarrow> Date \<Rightarrow> Database \<Rightarrow> int list \<Rightarrow> int list" where
  "check_missing_items E hide_nsfw date_start date_end [] its = its"
| "check_missing_items E hide_nsfw date_start date_end ((anime_id, anime_item) # rest) its =
     (if anime_id \<in> set its
      then check_missing_items E hide_nsfw date_start date_end rest its
      else if is_nsfw E hide_nsfw anime_item \<or>
              \<not> is_within_date_interval E date_start date_end anime_item
      then check_missing_items E hide_nsfw date_start date_end rest its
      else check_missing_items E hide_nsfw date_start date_end rest (its @ [anime_id]))"

definition Review :: "env \<Rightarrow> bool \<Rightarrow> world \<Rightarrow> world" where
  "Review E hide_nsfw w =
     (case GetInterval E (current_season w) of
        (date_start, date_end) \<Rightarrow>
          w\<lparr>items :=
              check_missing_items E hide_nsfw date_start date_end (AnimeDatabase_items w)
                (check_invalid_items E hide_nsfw date_start date_end (AnimeDatabase_items w) 0
                   (items w))\<rparr>)"

subsection \<open>SeasonDatabase::LoadSeasonFromMemory\<close>

text \<open>Lines 151 to 158. \<open>hide_nsfw\<close> is the default argument of \<^verbatim>\<open>Review()\<close>, which
  library/discover.h declares.\<close>

definition LoadSeasonFromMemory :: "env \<Rightarrow> bool \<Rightarrow> Season \<Rightarrow> world \<Rightarrow> bool \<times> world" where
  "LoadSeasonFromMemory E hide_nsfw season w =
     (True, Review E hide_nsfw (w\<lparr>current_season := season, items := []\<rparr>))"

subsection \<open>The library store\<close>

text \<open>
  Modelled from the spec: \<^verbatim>\<open>AnimeDatabase.FindItem(id, service, false)\<close>
  (library/anime_db.h is not among the sources). The library store's
  \<^verbatim>\<open>FindByExternalId(id, serviceId)\<close>: the first record, in the library's iteration
  order, whose identifier under the service is the one asked for.
\<close>

definition has_external_id :: "enum_t \<Rightarrow> string \<Rightarrow> int \<times> Item \<Rightarrow> bool" where
  "has_external_id service ident r = (map_of (item_ids (snd r)) service = Some ident)"

definition FindByExternalId :: "Database \<Rightarrow> string \<Rightarrow> enum_t \<Rightarrow> Item option" where
  "FindByExternalId db ident service =
     map_option snd (find (has_external_id service ident) db)"

text \<open>
  Modelled from the spec: \<^verbatim>\<open>AnimeDatabase.FindItem(anime_id)\<close>, the library store's
  \<^verbatim>\<open>FindById(RecordId)\<close>.
\<close>

definition FindById :: "Database \<Rightarrow> int \<Rightarrow> Item option" where
  "FindById db anime_id = map_of db anime_id"

text \<open>
  Modelled from the spec: \<^verbatim>\<open>AnimeDatabase.UpdateItem(item)\<close>, insert-or-update keyed by
  the minted or found identifier. The record found through the item's identifiers (in the
  resolver's order) is overwritten with the entry's title, type, image, trailer and
  producers, gets all the identifiers the entry knows and the entry's timestamp, and keeps
  its place, its identifier, its start date and its synopsis. When no record is found the
  item is inserted after the others under a newly minted identifier.
\<close>

definition overwrite :: "Item \<Rightarrow> Item \<Rightarrow> Item" where
  "overwrite item old =
     old\<lparr>item_ids := foldl (\<lambda>m (service, ident). map_assign service ident m)
                        (item_ids old) (item_ids item),
         item_last_modified := item_last_modified item,
         item_title := item_title item,
         item_type := item_type item,
         item_image_url := item_image_url item,
         item_trailer_url := item_trailer_url item,
         item_producers := item_producers item\<rparr>"

fun UpdateExisting :: "(int \<times> Item \<Rightarrow> bool) \<Rightarrow> Item \<Rightarrow> Database \<Rightarrow> Database" where
  "UpdateExisting P item [] = []"
| "UpdateExisting P item (r # db) =
     (if P r then (fst r, overwrite item (snd r)) # db else r # UpdateExisting P item db)"

definition mint_id :: "Database \<Rightarrow> int" where
  "mint_id db = 1 + foldr (\<lambda>r m. max (fst r) m) db 0"

definition Insert :: "Item \<Rightarrow> Database \<Rightarrow> int \<times> Database" where
  "Insert item db = (let k = mint_id db in (k, db @ [(k, item\<lparr>item_id := k\<rparr>)]))"

fun update_found ::
  "Database \<Rightarrow> Item \<Rightarrow> (enum_t \<times> string) list \<Rightarrow> (int \<times> Database) option" where
  "update_found db item [] = None"
| "update_found db item ((service, ident) # rest) =
     (case find (has_external_id service ident) db of
        Some r \<Rightarrow> Some (fst r, UpdateExisting (has_external_id service ident) item db)
      | None \<Rightarrow> update_found db item rest)"

definition InsertOrUpdate :: "Database \<Rightarrow> Item \<Rightarrow> int \<times> Database" where
  "InsertOrUpdate db item =
     (case update_found db item (item_ids item) of
        Some r \<Rightarrow> r
      | None \<Rightarrow> Insert item db)"

subsection \<open>A reference environment\<close>

text \<open>
  One instance of the collaborators, to evaluate the operations on concrete inputs: the
  library store above; a parser and a file system given as tables; decimal timestamps;
  the service names \<^verbatim>\<open>myanimelist\<close>, \<^verbatim>\<open>kitsu\<close> and \<^verbatim>\<open>anilist\<close>; dates compared
  by year, month and day, and valid when the year is known.
\<close>

definition digit :: "char \<Rightarrow> nat" where
  "digit c =
     (case map_of (zip ''0123456789'' [0, 1, 2, 3, 4, 5, 6, 7, 8, 9]) c of
        Some d \<Rightarrow> d
      | None \<Rightarrow> 0)"

definition decimal :: "string \<Rightarrow> nat" where
  "decimal s = foldl (\<lambda>n c. 10 * n + digit c) 0 s"

definition season_of_string :: "string \<Rightarrow> Season" where
  "season_of_string s =
     (let n = takeWhile (\<lambda>c. c \<noteq> CHR '' '') s;
          y = drop 1 (dropWhile (\<lambda>c. c \<noteq> CHR '' '') s)
      in \<lparr>season_name =
            (if n = ''Winter'' then kWinter else if n = ''Spring'' then kSpring
             else if n = ''Summer'' then kSummer else if n = ''Fall'' then kFall
             else kUnknown),
          season_year = decimal y\<rparr>)"

definition service_id_by_name :: "string \<Rightarrow> enum_t" where
  "service_id_by_name n =
     (if n = ''myanimelist'' then 1 else if n = ''kitsu'' then 2
      else if n = ''anilist'' then 3 else 0)"

definition no_date :: Date where
  "no_date = \<lparr>date_year = 0, date_month = 0, date_day = 0\<rparr>"

definition blank_item :: Item where
  "blank_item =
     \<lparr>item_id = 0, item_source = 0, item_ids = [], item_last_modified = 0,
      item_title = [], item_type = 0, item_image_url = [], item_trailer_url = [],
      item_producers = [], item_date_start = no_date, item_synopsis = None\<rparr>"

definition date_before_eq :: "Date \<Rightarrow> Date \<Rightarrow> bool" where
  "date_before_eq a b =
     (date_year a < date_year b \<or>
      (date_year a = date_year b \<and>
       (date_month a < date_month b \<or>
        (date_month a = date_month b \<and> date_day a \<le> date_day b))))"

definition season_interval :: "Season \<Rightarrow> Date \<times> Date" where
  "season_interval s =
     (let y = season_year s in
      case season_name s of
        kUnknown \<Rightarrow> (no_date, no_date)
      | kWinter \<Rightarrow> (\<lparr>date_year = y, date_month = 1, date_day = 1\<rparr>,
                    \<lparr>date_year = y, date_month = 3, date_day = 31\<rparr>)
      | kSpring \<Rightarrow> (\<lparr>date_year = y, date_month = 4, date_day = 1\<rparr>,
                    \<lparr>date_year = y, date_month = 6, date_day = 30\<rparr>)
      | kSummer \<Rightarrow> (\<lparr>date_year = y, date_month = 7, date_day = 1\<rparr>,
                    \<lparr>date_year = y, date_month = 9, date_day = 30\<rparr>)
      | kFall \<Rightarrow> (\<lparr>date_year = y, date_month = 10, date_day = 1\<rparr>,
                  \<lparr>date_year = y, date_month = 12, date_day = 31\<rparr>))"

definition reference_env ::
  "(string \<times> xml_node) list \<Rightarrow> (string \<times> string) list \<Rightarrow> enum_t \<Rightarrow> int list \<Rightarrow> env" where
  "reference_env documents files service mature =
     \<lparr>xml_load_string = map_of documents,
      ToTime = (\<lambda>s. int (decimal s)),
      ToInt = (\<lambda>s. int (decimal s)),
      SeasonFromString = season_of_string,
      GetServiceIdByName = service_id_by_name,
      GetCurrentServiceId = service,
      NewItem = blank_item,
      FindItem = FindByExternalId,
      FindItemById = FindById,
      UpdateItem = InsertOrUpdate,
      IsValidDate = (\<lambda>d. date_year d \<noteq> 0),
      IsNsfw = (\<lambda>anime_item. item_id anime_item \<in> set mature),
      date_le = date_before_eq,
      GetInterval = season_interval,
      ReadFromFile = map_of files,
      GetPath_DatabaseSeason = ''db/season/'',
      StrToWstr = (\<lambda>s. s)\<rparr>"

subsection \<open>Notions the properties are stated with\<close>

text \<open>The (service-id, external-id) pairs of an entry in the document order of its
  identifier tags.\<close>

definition id_tags :: "env \<Rightarrow> xml_node \<Rightarrow> (enum_t \<times> string) list" where
  "id_tags E node =
     map (\<lambda>id_node. (GetServiceIdByName E (attribute_as_string id_node ''name''),
                      node_value id_node))
       (foreach_xmlnode (Some node) ''id'')"

text \<open>The URLs of the transfer requests among a sequence of events.\<close>

definition requests :: "event list \<Rightarrow> string list" where
  "requests es = concat (map (\<lambda>e. case e of MakeRequest url \<Rightarrow> [url] | _ \<Rightarrow> []) es)"

text \<open>The resolver as the specification words it: the pairs in document order, the first
  one the library knows.\<close>

definition resolve_in_document_order :: "env \<Rightarrow> Database \<Rightarrow> xml_node \<Rightarrow> Item option" where
  "resolve_in_document_order E db node =
     (case filter (\<lambda>p. FindItem E db (snd p) (fst p) \<noteq> None) (id_tags E node) of
        [] \<Rightarrow> None
      | p # _ \<Rightarrow> FindItem E db (snd p) (fst p))"

text \<open>
  Notions for two loads of one document. \<open>advances T db db'\<close>: \<open>db'\<close> has the
  records of \<open>db\<close> in their places, except that a record older than \<open>T\<close> may have
  been replaced by one at least as recent as \<open>T\<close>, followed by new records at least
  as recent as \<open>T\<close>. \<open>settled E T db node\<close>: against \<open>db\<close>, the entry \<open>node\<close>
  does not reach \<^verbatim>\<open>UpdateItem\<close>, because it has no identifier for the active service or
  because the resolver finds a record at least as recent as \<open>T\<close>.
\<close>

fun advances :: "time_t \<Rightarrow> Database \<Rightarrow> Database \<Rightarrow> bool" where
  "advances T [] ys = list_all (\<lambda>y. T \<le> item_last_modified (snd y)) ys"
| "advances T (x # xs) [] = False"
| "advances T (x # xs) (y # ys) =
     ((y = x \<or> (item_last_modified (snd x) < T \<and> T \<le> item_last_modified (snd y))) \<and>
      advances T xs ys)"

definition recent :: "time_t \<Rightarrow> (int \<times> Item) option \<Rightarrow> bool" where
  "recent T r = (case r of None \<Rightarrow> False | Some x \<Rightarrow> T \<le> item_last_modified (snd x))"

definition settled :: "env \<Rightarrow> time_t \<Rightarrow> Database \<Rightarrow> xml_node \<Rightarrow> bool" where
  "settled E T db node =
     (fst (map_subscript (GetCurrentServiceId E) (read_id_map E node)) = [] \<or>
      (case find_by_id_map E db (read_id_map E node) of
         None \<Rightarrow> False
       | Some anime_item \<Rightarrow> T \<le> item_last_modified anime_item))"

text \<open>The timestamp and the entries that \<open>LoadString\<close> reads from a parsed document.\<close>

definition modified_of :: "env \<Rightarrow> xml_node \<Rightarrow> time_t" where
  "modified_of E document =
     ToTime E (XmlReadStr (child (child (Some document) ''season'') ''info'') ''modified'')"

definition anime_nodes :: "xml_node \<Rightarrow> xml_node list" where
  "anime_nodes document = foreach_xmlnode (child (Some document) ''season'') ''anime''"

text \<open>
  The states the program builds. The constructor makes the season database; after that its
  methods are called (\<^verbatim>\<open>LoadSeason\<close> is \<open>LoadFile\<close> with a file name), and code
  elsewhere in the program changes the library, the public members \<^verbatim>\<open>items\<close> and
  \<^verbatim>\<open>current_season\<close>, and adds events of its own. Nothing in the sources but the
  constructor writes \<^verbatim>\<open>remote_location\<close>.
\<close>

datatype operation =
    CallLoadFile string
  | CallLoadString string
  | CallLoadSeasonFromMemory bool Season
  | CallReset
  | CallReview bool
  | Elsewhere "int list" Season Database "event list"

fun perform :: "env \<Rightarrow> world \<Rightarrow> operation \<Rightarrow> world" where
  "perform E w (CallLoadFile filename) = snd (LoadFile E filename w)"
| "perform E w (CallLoadString data) = snd (LoadString E data w)"
| "perform E w (CallLoadSeasonFromMemory hide_nsfw season) =
     snd (LoadSeasonFromMemory E hide_nsfw season w)"
| "perform E w CallReset = Reset w"
| "perform E w (CallReview hide_nsfw) = Review E hide_nsfw w"
| "perform E w (Elsewhere its season db es) =
     w\<lparr>items := its, current_season := season, AnimeDatabase_items := db,
       events := events w @ es\<rparr>"

definition built :: "env \<Rightarrow> Season \<Rightarrow> Database \<Rightarrow> operation list \<Rightarrow> world" where
  "built E season db operations = foldl (perform E) (SeasonDatabase_new season db) operations"

text \<open>
  What the refresh heuristic counts, stated on the record: an identifier that names a
  library record whose start date is not valid or whose synopsis is \<open>lacking\<close>. A
  synopsis can be lacking because it is unset, or because it is unset or present but empty.
\<close>

definition unset_or_empty :: "string option \<Rightarrow> bool" where
  "unset_or_empty synopsis = (synopsis = None \<or> synopsis = Some [])"

definition incomplete ::
  "(string option \<Rightarrow> bool) \<Rightarrow> env \<Rightarrow> Database \<Rightarrow> int \<Rightarrow> bool" where
  "incomplete lacking E db anime_id =
     (case FindItemById E db anime_id of
        None \<Rightarrow> False
      | Some anime_item \<Rightarrow>
          \<not> IsValidDate E (item_date_start anime_item) \<or> lacking (item_synopsis anime_item))"

subsection \<open>Sample inputs\<close>

definition sample_item :: "int \<Rightarrow> (enum_t \<times> string) list \<Rightarrow> time_t \<Rightarrow> Item" where
  "sample_item k ids t = blank_item\<lparr>item_id := k, item_ids := ids, item_last_modified := t\<rparr>"

definition id_tag :: "string \<Rightarrow> string \<Rightarrow> xml_node" where
  "id_tag n v = XmlNode ''id'' [(''name'', n)] v []"

definition text_node :: "string \<Rightarrow> string \<Rightarrow> xml_node" where
  "text_node n v = XmlNode n [] v []"

definition anime_node :: "xml_node list \<Rightarrow> xml_node" where
  "anime_node cs = XmlNode ''anime'' [] [] cs"

definition season_document :: "string \<Rightarrow> string \<Rightarrow> xml_node list \<Rightarrow> xml_node" where
  "season_document n m entries =
     XmlNode [] [] []
       [XmlNode ''season'' [] []
          (XmlNode ''info'' [] [] [text_node ''name'' n, text_node ''modified'' m] # entries)]"

definition spring_2018 :: Season where
  "spring_2018 = \<lparr>season_name = kSpring, season_year = 2018\<rparr>"

text \<open>A stored record that is as recent as the document, and an entry that names it.\<close>

definition fresh_record :: Item where
  "fresh_record = (sample_item 5 [(1, ''35180'')] 1000)\<lparr>item_synopsis := Some ''X''\<rparr>"

definition fresh_entry :: xml_node where
  "fresh_entry = anime_node [id_tag ''myanimelist'' ''35180'', text_node ''title'' ''New title'']"

definition fresh_world :: world where
  "fresh_world = SeasonDatabase_new spring_2018 [(5, fresh_record)]"

definition fresh_env :: env where
  "fresh_env =
     reference_env [(''doc'', season_document ''Spring 2018'' ''1000'' [fresh_entry])] [] 1 []"

text \<open>Two records, each known to one service, and an entry that lists the second
  service's identifier first.\<close>

definition mal_record :: Item where
  "mal_record = sample_item 1 [(1, ''m1'')] 2000"

definition kitsu_record :: Item where
  "kitsu_record = sample_item 2 [(2, ''k1'')] 2000"

definition two_services_entry :: xml_node where
  "two_services_entry = anime_node [id_tag ''kitsu'' ''k1'', id_tag ''myanimelist'' ''m1'']"

definition two_services_db :: Database where
  "two_services_db = [(1, mal_record), (2, kitsu_record)]"

definition two_services_env :: env where
  "two_services_env =
     reference_env [(''doc'', season_document ''Spring 2018'' ''1000'' [two_services_entry])]
       [] 1 []"





text \<open>A season directory in which one file is missing and the other does not parse.\<close>

definition files_env :: env where
  "files_env = reference_env [] [(''db/season/2018_winter.xml'', ''<season>'')] 1 []"

text \<open>Library records with a start date, a season database for spring 2018 with a given
  membership list, and an environment in which record 9 is flagged as mature.\<close>

definition dated_item :: "int \<Rightarrow> nat \<Rightarrow> nat \<Rightarrow> nat \<Rightarrow> Item" where
  "dated_item k y m d =
     (sample_item k [(1, ''1'')] 1000)
       \<lparr>item_date_start := \<lparr>date_year = y, date_month = m, date_day = d\<rparr>,
        item_synopsis := Some ''Synopsis''\<rparr>"

definition review_env :: env where
  "review_env = reference_env [] [] 1 [9]"

definition review_world :: "Database \<Rightarrow> int list \<Rightarrow> world" where
  "review_world db its = (SeasonDatabase_new spring_2018 db)\<lparr>items := its\<rparr>"

text \<open>A document that lists one title twice, first with its Kitsu identifier only, loaded
  into an empty library while MyAnimeList is the active service.\<close>

definition twice_entries :: "xml_node list" where
  "twice_entries =
     [anime_node [id_tag ''kitsu'' ''k1'', text_node ''title'' ''Title''],
      anime_node [id_tag ''myanimelist'' ''m1'', id_tag ''kitsu'' ''k1'',
                  text_node ''title'' ''Title'']]"

definition twice_env :: env where
  "twice_env =
     reference_env [(''doc'', season_document ''Spring 2018'' ''1000'' twice_entries)] [] 1 []"

definition empty_library :: world where
  "empty_library = SeasonDatabase_new spring_2018 []"

text \<open>A library with a record without a start date (8), one without a synopsis (6), one
  with an empty synopsis (7) and a complete one (5); membership lists over it.\<close>

definition refresh_db :: Database where
  "refresh_db =
     [(8, dated_item 8 0 0 0),
      (6, (dated_item 6 2018 4 8)\<lparr>item_synopsis := None\<rparr>),
      (7, (dated_item 7 2018 4 9)\<lparr>item_synopsis := Some []\<rparr>),
      (5, dated_item 5 2018 4 7)]"

definition incomplete_items :: "int list" where
  "incomplete_items = [8, 8, 8, 8, 8, 8, 8, 6, 6, 6, 6, 6, 6, 6, 7, 7, 7, 7, 7, 7, 7]"

definition empty_synopsis_items :: "int list" where
  "empty_synopsis_items = [7, 7, 7, 7, 7, 7, 7, 7, 7, 7, 7, 7, 7, 7, 7, 7, 7, 7, 7, 7, 7]"

text \<open>Calls made on a season database before the one under study.\<close>

definition earlier_calls :: "operation list" where
  "earlier_calls = [CallLoadFile ''2018_winter.xml'', Elsewhere [5] spring_2018 [] [], CallReset]"

section \<open>Properties\<close>

lemmas sample_defs =
  sample_item_def id_tag_def text_node_def anime_node_def season_document_def spring_2018_def
  blank_item_def no_date_def SeasonDatabase_new_def

lemmas reference_defs =
  reference_env_def FindByExternalId_def FindById_def InsertOrUpdate_def Insert_def
  mint_id_def overwrite_def has_external_id_def decimal_def digit_def season_of_string_def
  service_id_by_name_def date_before_eq_def season_interval_def

lemmas load_defs =
  LoadString_def load_anime_node_def update_from_node_def build_item_def read_id_map_def
  SetId_def map_subscript_def child_def child_value_def attribute_as_string_def
  foreach_xmlnode_def XmlReadStr_def XmlReadInt_def

subsection \<open>A document that does not parse\<close>

text \<open>
  C10. If \<open>LoadString\<close> is given input that fails to parse, it returns false and the
  state is the state before the call: the membership list, the current season, every
  library record and the events (so the database was not saved).
\<close>

theorem LoadString_parse_failure:
  "xml_load_string E data = None \<Longrightarrow> LoadString E data w = (False, w)"
  by (simp add: LoadString_def)

theorem LoadString_parse_failure_witness:
  "xml_load_string fresh_env ''<season>'' = None \<and>
   LoadString fresh_env ''<season>'' (fresh_world\<lparr>items := [5]\<rparr>)
     = (False, fresh_world\<lparr>items := [5]\<rparr>)"
  using LoadString_parse_failure [of fresh_env "''<season>''" "fresh_world\<lparr>items := [5]\<rparr>"]
  by (simp add: fresh_env_def reference_env_def)

subsection \<open>An entry matched to a record that is up to date\<close>

text \<open>
  C2. When the resolver matches an entry to a record whose last-modified timestamp is
  greater than or equal to the document's, processing the entry appends that record's
  identifier to the membership list and changes nothing else: the library's records are
  the same, field by field. (In the witness the document's timestamp equals the record's,
  and the record's synopsis is still \<open>X\<close> after the whole load.)
\<close>

theorem up_to_date_record_unchanged:
  "find_by_id_map E (AnimeDatabase_items w) (read_id_map E node) = Some anime_item \<Longrightarrow>
   item_last_modified anime_item \<ge> modified \<Longrightarrow>
   load_anime_node E modified w node = w\<lparr>items := items w @ [item_id anime_item]\<rparr> \<and>
   AnimeDatabase_items (load_anime_node E modified w node) = AnimeDatabase_items w"
  by (simp add: load_anime_node_def)

theorem up_to_date_record_unchanged_witness:
  "find_by_id_map fresh_env (AnimeDatabase_items fresh_world)
     (read_id_map fresh_env fresh_entry) = Some fresh_record \<and>
   item_last_modified fresh_record \<ge> 1000 \<and>
   load_anime_node fresh_env 1000 fresh_world fresh_entry = fresh_world\<lparr>items := [5]\<rparr> \<and>
   LoadString fresh_env ''doc'' fresh_world
     = (True, fresh_world\<lparr>items := [5], events := [SaveDatabase]\<rparr>) \<and>
   map (\<lambda>r. item_synopsis (snd r)) (AnimeDatabase_items fresh_world) = [Some ''X'']"
proof -
  have m: "find_by_id_map fresh_env (AnimeDatabase_items fresh_world)
             (read_id_map fresh_env fresh_entry) = Some fresh_record"
    by (simp add: fresh_env_def fresh_world_def fresh_entry_def fresh_record_def
          sample_defs reference_defs load_defs)
  have t: "item_last_modified fresh_record \<ge> 1000"
    by (simp add: fresh_record_def sample_defs)
  have l: "LoadString fresh_env ''doc'' fresh_world
             = (True, fresh_world\<lparr>items := [5], events := [SaveDatabase]\<rparr>)"
    by (simp add: fresh_env_def fresh_world_def fresh_entry_def fresh_record_def
          sample_defs reference_defs load_defs)
  from up_to_date_record_unchanged [OF m t] m t l show ?thesis
    by (simp add: fresh_world_def fresh_record_def sample_defs)
qed

subsection \<open>The identity resolver\<close>

lemma map_of_map_assign: "map_of (map_assign k v m) = (map_of m)(k \<mapsto> v)"
  by (induction m) auto

lemma keys_map_assign: "fst ` set (map_assign k v m) = insert k (fst ` set m)"
proof (induction m)
  case Nil
  then show ?case by simp
next
  case (Cons p m)
  obtain k' v' where p: "p = (k', v')" by (cases p)
  consider "k < k'" | "k = k'" | "k' < k" by linarith
  then show ?case
  proof cases
    case 1 then show ?thesis by (simp add: p)
  next
    case 2 then show ?thesis by (simp add: p)
  next
    case 3 with Cons show ?thesis by (simp add: p insert_commute)
  qed
qed

lemma sorted_map_assign:
  "sorted_wrt (<) (map fst m) \<Longrightarrow> sorted_wrt (<) (map fst (map_assign k v m))"
proof (induction m)
  case Nil
  then show ?case by simp
next
  case (Cons p m)
  obtain k' v' where p: "p = (k', v')" by (cases p)
  from Cons show ?case
    using keys_map_assign [of k v m] by (auto simp: p)
qed

lemma read_id_map_id_tags:
  "read_id_map E node = foldl (\<lambda>m p. map_assign (fst p) (snd p) m) [] (id_tags E node)"
  by (simp add: read_id_map_def id_tags_def foldl_map)

lemma map_of_foldl_map_assign:
  "map_of (foldl (\<lambda>m p. map_assign (fst p) (snd p) m) m ts) = map_of m ++ map_of (rev ts)"
proof (induction ts arbitrary: m)
  case Nil
  then show ?case by simp
next
  case (Cons t ts)
  have "map_of (foldl (\<lambda>m p. map_assign (fst p) (snd p) m) m (t # ts))
          = (map_of m)(fst t \<mapsto> snd t) ++ map_of (rev ts)"
    by (simp add: Cons.IH map_of_map_assign fun_upd_def)
  also have "\<dots> = map_of m ++ map_of (rev (t # ts))"
    by (cases t) (auto simp: map_add_def fun_eq_iff split: option.splits)
  finally show ?case .
qed

lemma sorted_foldl_map_assign:
  "sorted_wrt (<) (map fst m) \<Longrightarrow>
   sorted_wrt (<) (map fst (foldl (\<lambda>m p. map_assign (fst p) (snd p) m) m ts))"
  by (induction ts arbitrary: m) (simp_all add: sorted_map_assign)

lemma map_of_read_id_map: "map_of (read_id_map E node) = map_of (rev (id_tags E node))"
  by (simp add: read_id_map_id_tags map_of_foldl_map_assign)

lemma sorted_read_id_map: "sorted_wrt (<) (map fst (read_id_map E node))"
  by (simp add: read_id_map_id_tags sorted_foldl_map_assign)

lemma map_of_sorted_less:
  assumes "sorted_wrt (<) (map fst ((k::nat, v) # m))" and "s \<le> k"
  shows "map_of m s = None"
proof -
  from assms(1) have "\<forall>x\<in>set m. k < fst x" by simp
  with assms(2) have "s \<notin> fst ` set m" by force
  then show ?thesis by (simp add: map_of_eq_None_iff)
qed

lemma find_by_id_map_sorted:
  "sorted_wrt (<) (map fst m) \<Longrightarrow>
   find_by_id_map E db m = Some r \<longleftrightarrow>
     (\<exists>s i. map_of m s = Some i \<and> FindItem E db i s = Some r \<and>
        (\<forall>s' i'. s' < s \<longrightarrow> map_of m s' = Some i' \<longrightarrow> FindItem E db i' s' = None))"
proof (induction m)
  case Nil
  then show ?case by simp
next
  case (Cons p m)
  obtain k v where p: "p = (k, v)" by (cases p)
  from Cons.prems have sm: "sorted_wrt (<) (map fst m)" by simp
  have none_le: "\<And>s. s \<le> k \<Longrightarrow> map_of m s = None"
    using Cons.prems map_of_sorted_less [of k v m] by (simp add: p)
  have gt: "\<And>s i. map_of m s = Some i \<Longrightarrow> k < s"
    using none_le by (metis not_le option.distinct(1))
  show ?case
  proof (cases "FindItem E db v k")
    case None
    have "find_by_id_map E db (p # m) = Some r \<longleftrightarrow> find_by_id_map E db m = Some r"
      by (simp add: p None)
    also have "\<dots> \<longleftrightarrow> (\<exists>s i. map_of m s = Some i \<and> FindItem E db i s = Some r \<and>
        (\<forall>s' i'. s' < s \<longrightarrow> map_of m s' = Some i' \<longrightarrow> FindItem E db i' s' = None))"
      using Cons.IH [OF sm] .
    also have "\<dots> \<longleftrightarrow> (\<exists>s i. map_of (p # m) s = Some i \<and> FindItem E db i s = Some r \<and>
        (\<forall>s' i'. s' < s \<longrightarrow> map_of (p # m) s' = Some i' \<longrightarrow> FindItem E db i' s' = None))"
      (is "?L \<longleftrightarrow> ?R")
    proof
      assume ?L
      then obtain s i where si: "map_of m s = Some i" "FindItem E db i s = Some r"
        and least: "\<forall>s' i'. s' < s \<longrightarrow> map_of m s' = Some i' \<longrightarrow> FindItem E db i' s' = None"
        by blast
      from si(1) have "k < s" by (rule gt)
      then have 1: "map_of (p # m) s = Some i" using si(1) by (simp add: p)
      have 2: "\<forall>s' i'. s' < s \<longrightarrow> map_of (p # m) s' = Some i' \<longrightarrow> FindItem E db i' s' = None"
        using least None by (auto simp: p split: if_splits)
      from 1 si(2) 2 show ?R by blast
    next
      assume ?R
      then obtain s i where si: "map_of (p # m) s = Some i" "FindItem E db i s = Some r"
        and least: "\<forall>s' i'. s' < s \<longrightarrow> map_of (p # m) s' = Some i' \<longrightarrow> FindItem E db i' s' = None"
        by blast
      have "s \<noteq> k" using si None by (auto simp: p)
      then have 1: "map_of m s = Some i" using si(1) by (simp add: p)
      have 2: "\<forall>s' i'. s' < s \<longrightarrow> map_of m s' = Some i' \<longrightarrow> FindItem E db i' s' = None"
      proof (intro allI impI)
        fix s' i' assume "s' < s" and m': "map_of m s' = Some i'"
        from m' have "k < s'" by (rule gt)
        then have "map_of (p # m) s' = Some i'" using m' by (simp add: p)
        with least \<open>s' < s\<close> show "FindItem E db i' s' = None" by blast
      qed
      from 1 si(2) 2 show ?L by blast
    qed
    finally show ?thesis .
  next
    case (Some a)
    have "find_by_id_map E db (p # m) = Some r \<longleftrightarrow> a = r"
      by (simp add: p Some)
    also have "\<dots> \<longleftrightarrow> (\<exists>s i. map_of (p # m) s = Some i \<and> FindItem E db i s = Some r \<and>
        (\<forall>s' i'. s' < s \<longrightarrow> map_of (p # m) s' = Some i' \<longrightarrow> FindItem E db i' s' = None))"
    proof
      assume "a = r"
      then show "\<exists>s i. map_of (p # m) s = Some i \<and> FindItem E db i s = Some r \<and>
        (\<forall>s' i'. s' < s \<longrightarrow> map_of (p # m) s' = Some i' \<longrightarrow> FindItem E db i' s' = None)"
        using Some none_le by (intro exI [of _ k] exI [of _ v]) (auto simp: p)
    next
      assume "\<exists>s i. map_of (p # m) s = Some i \<and> FindItem E db i s = Some r \<and>
        (\<forall>s' i'. s' < s \<longrightarrow> map_of (p # m) s' = Some i' \<longrightarrow> FindItem E db i' s' = None)"
      then obtain s i where si: "map_of (p # m) s = Some i" "FindItem E db i s = Some r"
        and least: "\<forall>s' i'. s' < s \<longrightarrow> map_of (p # m) s' = Some i' \<longrightarrow> FindItem E db i' s' = None"
        by blast
      show "a = r"
      proof (cases "s = k")
        case True
        with si Some show ?thesis by (simp add: p)
      next
        case False
        with si have "map_of m s = Some i" by (simp add: p)
        then have "k < s" by (rule gt)
        with least have "FindItem E db v k = None" by (simp add: p)
        with Some show ?thesis by simp
      qed
    qed
    finally show ?thesis .
  qed
qed

text \<open>
  C1 (as amended). The resolver does not follow the document order of the identifier
  tags: the tags are stored in a \<^verbatim>\<open>std::map\<close> keyed by service-id, so the lookups
  run in ascending order of service-id, each with the value of the last tag that names
  the service. The record returned is the match of the smallest service-id that has one.
\<close>

theorem resolver_least_service_id:
  "find_by_id_map E db (read_id_map E node) = Some r \<longleftrightarrow>
     (\<exists>s i. map_of (rev (id_tags E node)) s = Some i \<and> FindItem E db i s = Some r \<and>
        (\<forall>s' i'. s' < s \<longrightarrow> map_of (rev (id_tags E node)) s' = Some i' \<longrightarrow>
           FindItem E db i' s' = None))"
  using find_by_id_map_sorted [OF sorted_read_id_map, where E = E and db = db and r = r]
  by (simp add: map_of_read_id_map)

lemmas two_services_defs =
  two_services_env_def two_services_db_def two_services_entry_def mal_record_def
  kitsu_record_def

text \<open>The claim as it was stated fails: the Kitsu tag comes first in the document and
  the record found through MyAnimeList, the smaller service-id, is returned.\<close>

theorem resolver_document_order_counterexample:
  "id_tags two_services_env two_services_entry = [(2, ''k1''), (1, ''m1'')] \<and>
   FindItem two_services_env two_services_db ''k1'' 2 = Some kitsu_record \<and>
   FindItem two_services_env two_services_db ''m1'' 1 = Some mal_record \<and>
   resolve_in_document_order two_services_env two_services_db two_services_entry = Some kitsu_record \<and>
   find_by_id_map two_services_env two_services_db (read_id_map two_services_env two_services_entry) = Some mal_record \<and>
   mal_record \<noteq> kitsu_record \<and>
   items (snd (LoadString two_services_env ''doc'' (SeasonDatabase_new spring_2018 two_services_db))) = [1]"
  by (simp add: two_services_defs resolve_in_document_order_def id_tags_def sample_defs reference_defs load_defs)

theorem resolver_least_service_id_witness:
  "find_by_id_map two_services_env two_services_db (read_id_map two_services_env two_services_entry) = Some mal_record \<and>
   (\<exists>s i. map_of (rev (id_tags two_services_env two_services_entry)) s = Some i \<and>
        FindItem two_services_env two_services_db i s = Some mal_record \<and>
        (\<forall>s' i'. s' < s \<longrightarrow> map_of (rev (id_tags two_services_env two_services_entry)) s' = Some i' \<longrightarrow>
           FindItem two_services_env two_services_db i' s' = None))"
proof -
  have "find_by_id_map two_services_env two_services_db (read_id_map two_services_env two_services_entry) = Some mal_record"
    by (simp add: two_services_defs sample_defs reference_defs load_defs)
  then show ?thesis
    using resolver_least_service_id [of two_services_env two_services_db two_services_entry mal_record]
    by simp
qed

subsection \<open>Entries without an identifier for the active service\<close>




subsection \<open>Loading from a file\<close>

text \<open>No operation touches the remote location that the constructor has set.\<close>

lemma remote_location_load_anime_node:
  "remote_location (load_anime_node E T w node) = remote_location w"
  by (simp add: load_anime_node_def update_from_node_def Let_def
      split: option.splits prod.splits)

lemma remote_location_foldl_load_anime_node:
  "remote_location (foldl (load_anime_node E T) w nodes) = remote_location w"
  by (induction nodes arbitrary: w) (simp_all add: remote_location_load_anime_node)

lemma remote_location_LoadString:
  "remote_location (snd (LoadString E data w)) = remote_location w"
  by (simp add: LoadString_def Let_def remote_location_foldl_load_anime_node
      split: option.splits)

lemma remote_location_LoadFile:
  "remote_location (snd (LoadFile E filename w)) = remote_location w"
proof (cases "ReadFromFile E (GetPath_DatabaseSeason E @ filename)")
  case None
  then show ?thesis by (simp add: LoadFile_def)
next
  case (Some document)
  obtain loaded w' where l: "LoadString E (StrToWstr E document) w = (loaded, w')"
    by (cases "LoadString E (StrToWstr E document) w")
  from remote_location_LoadString [of E "StrToWstr E document" w]
  have "remote_location w' = remote_location w" by (simp add: l)
  with l Some show ?thesis by (simp add: LoadFile_def)
qed

lemma remote_location_perform:
  "remote_location (perform E w operation) = remote_location w"
  by (cases operation)
     (simp_all add: remote_location_LoadFile remote_location_LoadString
        LoadSeasonFromMemory_def Review_def Reset_def split: prod.splits)

lemma remote_location_built:
  "remote_location (built E season db operations) =
     ''https://raw.githubusercontent.com/erengy/anime-seasons/master/data/''"
proof -
  have "\<And>w. remote_location (foldl (perform E) w operations) = remote_location w"
    by (induction operations) (simp_all add: remote_location_perform)
  then show ?thesis by (simp add: built_def SeasonDatabase_new_def)
qed

text \<open>
  C7. On every state the program builds: when the local document cannot be read,
  \<open>LoadFile\<close> returns false, shows the download status, disables the input and enqueues
  exactly one transfer request, whose URL is the remote location followed by the file
  name. When the document is read and does not parse, \<open>LoadFile\<close> returns false,
  displays the error message with the path, enqueues no request and leaves the rest of the
  state as it was.
\<close>

theorem LoadFile_failures:
  assumes "w = built E season db operations"
  shows
  "(ReadFromFile E (GetPath_DatabaseSeason E @ filename) = None \<longrightarrow>
      LoadFile E filename w =
        (False,
         w\<lparr>events := events w @
              [ChangeStatusText ''Downloading anime season data...'', EnableInput False,
               MakeRequest (remote_location w @ filename)]\<rparr>) \<and>
      requests (events (snd (LoadFile E filename w))) =
        requests (events w) @ [remote_location w @ filename]) \<and>
   (ReadFromFile E (GetPath_DatabaseSeason E @ filename) = Some document \<and>
    xml_load_string E (StrToWstr E document) = None \<longrightarrow>
      LoadFile E filename w =
        (False,
         w\<lparr>events := events w @
              [DisplayErrorMessage ''Could not read anime season file.''
                 (GetPath_DatabaseSeason E @ filename)]\<rparr>) \<and>
      requests (events (snd (LoadFile E filename w))) = requests (events w))"
proof -
  have "remote_location w \<noteq> []"
    by (simp add: assms remote_location_built)
  then show ?thesis
    by (simp add: LoadFile_def LoadString_def requests_def)
qed

theorem LoadFile_failures_witness:
  "built files_env spring_2018 [] earlier_calls =
     (SeasonDatabase_new \<lparr>season_name = kUnknown, season_year = 0\<rparr> [])
       \<lparr>events := [DisplayErrorMessage ''Could not read anime season file.''
                     ''db/season/2018_winter.xml'']\<rparr> \<and>
   ReadFromFile files_env (GetPath_DatabaseSeason files_env @ ''2018_spring.xml'') = None \<and>
   LoadFile files_env ''2018_spring.xml'' (built files_env spring_2018 [] earlier_calls) =
     (False, (built files_env spring_2018 [] earlier_calls)\<lparr>events :=
        [DisplayErrorMessage ''Could not read anime season file.'' ''db/season/2018_winter.xml'',
         ChangeStatusText ''Downloading anime season data...'', EnableInput False,
         MakeRequest ''https://raw.githubusercontent.com/erengy/anime-seasons/master/data/2018_spring.xml'']\<rparr>) \<and>
   requests (events (snd (LoadFile files_env ''2018_spring.xml''
       (built files_env spring_2018 [] earlier_calls))))
     = [''https://raw.githubusercontent.com/erengy/anime-seasons/master/data/2018_spring.xml''] \<and>
   ReadFromFile files_env (GetPath_DatabaseSeason files_env @ ''2018_winter.xml'') = Some ''<season>'' \<and>
   xml_load_string files_env (StrToWstr files_env ''<season>'') = None \<and>
   LoadFile files_env ''2018_winter.xml'' (built files_env spring_2018 [] earlier_calls) =
     (False, (built files_env spring_2018 [] earlier_calls)\<lparr>events :=
        [DisplayErrorMessage ''Could not read anime season file.'' ''db/season/2018_winter.xml'',
         DisplayErrorMessage ''Could not read anime season file.'' ''db/season/2018_winter.xml'']\<rparr>) \<and>
   requests (events (snd (LoadFile files_env ''2018_winter.xml''
       (built files_env spring_2018 [] earlier_calls)))) = []"
proof -
  have a: "ReadFromFile files_env (GetPath_DatabaseSeason files_env @ ''2018_spring.xml'') = None"
    by (simp add: files_env_def reference_env_def)
  have b: "ReadFromFile files_env (GetPath_DatabaseSeason files_env @ ''2018_winter.xml'') = Some ''<season>''"
    by (simp add: files_env_def reference_env_def)
  have c: "xml_load_string files_env (StrToWstr files_env ''<season>'') = None"
    by (simp add: files_env_def reference_env_def)
  have p: "GetPath_DatabaseSeason files_env = ''db/season/''"
    by (simp add: files_env_def reference_env_def)
  have w: "built files_env spring_2018 [] earlier_calls =
     (SeasonDatabase_new \<lparr>season_name = kUnknown, season_year = 0\<rparr> [])
       \<lparr>events := [DisplayErrorMessage ''Could not read anime season file.''
                     ''db/season/2018_winter.xml'']\<rparr>"
    using b c
    by (simp add: built_def earlier_calls_def LoadFile_def LoadString_def Reset_def p
          SeasonDatabase_new_def spring_2018_def)
  from LoadFile_failures [OF refl, where E = files_env and season = spring_2018 and db = "[]"
      and operations = earlier_calls and filename = "''2018_spring.xml''"]
    LoadFile_failures [OF refl, where E = files_env and season = spring_2018 and db = "[]"
      and operations = earlier_calls and filename = "''2018_winter.xml''"
      and document = "''<season>''"]
    a b c w show ?thesis
    by (simp add: p SeasonDatabase_new_def requests_def)
qed

subsection \<open>Loading one document twice\<close>

lemma advances_refl: "advances T db db"
  by (induction db) (simp_all)

lemma advances_append:
  "list_all (\<lambda>y. T \<le> item_last_modified (snd y)) ys \<Longrightarrow> advances T db (db @ ys)"
  by (induction db) simp_all

lemma advances_UpdateExisting:
  "find P db = Some r \<Longrightarrow> item_last_modified (snd r) < T \<Longrightarrow> T \<le> item_last_modified item \<Longrightarrow>
   advances T db (UpdateExisting P item db)"
  by (induction db) (auto simp: advances_refl overwrite_def)

lemma find_SomeD: "find P xs = Some x \<Longrightarrow> x \<in> set xs \<and> P x"
  by (induction xs) (auto split: if_splits)

lemma find_advances_recent:
  "advances T db db' \<Longrightarrow> recent T (find P db) \<Longrightarrow> recent T (find P db')"
proof (induction T db db' rule: advances.induct)
  case (1 T ys)
  then show ?case by (simp add: recent_def)
next
  case (2 T x xs)
  then show ?case by simp
next
  case (3 T x xs y ys)
  then show ?case by (auto simp: recent_def split: if_splits)
qed

lemma find_advances_none:
  "advances T db db' \<Longrightarrow> find P db = None \<Longrightarrow> find P db' = None \<or> recent T (find P db')"
proof (induction T db db' rule: advances.induct)
  case (1 T ys)
  show ?case
  proof (cases "find P ys")
    case None
    then show ?thesis by simp
  next
    case (Some r)
    then have "r \<in> set ys" by (simp add: find_SomeD)
    with 1 have "T \<le> item_last_modified (snd r)" by (simp add: list_all_iff)
    with Some show ?thesis by (simp add: recent_def)
  qed
next
  case (2 T x xs)
  then show ?case by simp
next
  case (3 T x xs y ys)
  then show ?case by (auto simp: recent_def split: if_splits)
qed

lemma find_by_id_map_store:
  "FindItem E = FindByExternalId \<Longrightarrow>
   find_by_id_map E db ((s, i) # rest) =
     (case find (has_external_id s i) db of
        Some r \<Rightarrow> Some (snd r)
      | None \<Rightarrow> find_by_id_map E db rest)"
  by (simp add: FindByExternalId_def split: option.splits)

lemma find_by_id_map_advances:
  assumes store: "FindItem E = FindByExternalId" and adv: "advances T db db'"
  shows "find_by_id_map E db m = Some a \<Longrightarrow> T \<le> item_last_modified a \<Longrightarrow>
         \<exists>a'. find_by_id_map E db' m = Some a' \<and> T \<le> item_last_modified a'"
proof (induction m)
  case Nil
  then show ?case by simp
next
  case (Cons p m)
  obtain s i where p: "p = (s, i)" by (cases p)
  show ?case
  proof (cases "find (has_external_id s i) db")
    case None
    from find_advances_none [OF adv None] show ?thesis
    proof (elim disjE)
      assume "find (has_external_id s i) db' = None"
      with Cons None show ?thesis
        by (simp add: p find_by_id_map_store [OF store] del: find_by_id_map.simps(2))
    next
      assume "recent T (find (has_external_id s i) db')"
      then show ?thesis
        by (auto simp: p find_by_id_map_store [OF store] recent_def simp del: find_by_id_map.simps(2) split: option.splits)
    qed
  next
    case (Some r)
    with Cons.prems have "recent T (find (has_external_id s i) db)"
      by (simp add: p find_by_id_map_store [OF store] recent_def del: find_by_id_map.simps(2))
    from find_advances_recent [OF adv this] show ?thesis
      by (auto simp: p find_by_id_map_store [OF store] recent_def simp del: find_by_id_map.simps(2) split: option.splits)
  qed
qed

lemma settled_advances:
  "FindItem E = FindByExternalId \<Longrightarrow> advances T db db' \<Longrightarrow> settled E T db node \<Longrightarrow>
   settled E T db' node"
  unfolding settled_def
  by (auto split: option.splits dest: find_by_id_map_advances)

lemma settled_unchanged:
  "settled E T (AnimeDatabase_items w) node \<Longrightarrow>
   AnimeDatabase_items (load_anime_node E T w node) = AnimeDatabase_items w"
  by (auto simp: settled_def load_anime_node_def update_from_node_def split: option.splits prod.splits)

lemma item_ids_foldl_SetId:
  "item_ids (foldl (\<lambda>item (service, ident). SetId ident service item) base m) =
     foldl (\<lambda>a p. map_assign (fst p) (snd p) a) (item_ids base) m"
  by (induction m arbitrary: base) (simp_all add: SetId_def case_prod_beta)

lemma map_assign_append:
  "\<forall>p \<in> set acc. fst p < k \<Longrightarrow> map_assign k v acc = acc @ [(k, v)]"
  by (induction acc) auto

lemma foldl_map_assign_sorted:
  "sorted_wrt (<) (map fst (acc @ m)) \<Longrightarrow>
   foldl (\<lambda>a p. map_assign (fst p) (snd p) a) acc m = acc @ m"
proof (induction m arbitrary: acc)
  case Nil
  then show ?case by simp
next
  case (Cons p m)
  from Cons.prems have "\<forall>q \<in> set acc. fst q < fst p"
    by (auto simp: sorted_wrt_append)
  then have a: "map_assign (fst p) (snd p) acc = acc @ [p]"
    by (simp add: map_assign_append)
  from Cons.prems have "sorted_wrt (<) (map fst ((acc @ [p]) @ m))" by simp
  from Cons.IH [OF this] show ?case by (simp add: a)
qed

lemma item_ids_build_item:
  "item_ids (NewItem E) = [] \<Longrightarrow> sorted_wrt (<) (map fst m) \<Longrightarrow>
   item_ids (build_item E node m T) = m"
  using foldl_map_assign_sorted [of "[]" m]
  by (simp add: build_item_def item_ids_foldl_SetId)

lemma item_last_modified_build_item: "item_last_modified (build_item E node m T) = T"
  by (simp add: build_item_def)

lemma map_subscript_present:
  "fst (map_subscript k m) \<noteq> [] \<Longrightarrow> snd (map_subscript k m) = m \<and> m \<noteq> []"
  by (auto simp: map_subscript_def split: option.splits)

lemma update_found_UpdateExisting:
  "update_found db item m = Some (k, db') \<Longrightarrow>
   \<exists>s i r. find (has_external_id s i) db = Some r \<and>
           db' = UpdateExisting (has_external_id s i) item db"
proof (induction m)
  case Nil
  then show ?case by simp
next
  case (Cons p m)
  obtain s i where p: "p = (s, i)" by (cases p)
  show ?case
  proof (cases "find (has_external_id s i) db")
    case None
    with Cons show ?thesis by (simp add: p)
  next
    case (Some r)
    with Cons.prems have "db' = UpdateExisting (has_external_id s i) item db"
      by (simp add: p)
    with Some show ?thesis by blast
  qed
qed

lemma update_found_Some:
  "FindItem E = FindByExternalId \<Longrightarrow> update_found db item m = Some (k, db') \<Longrightarrow>
   \<exists>s i r. find (has_external_id s i) db = Some r \<and>
           db' = UpdateExisting (has_external_id s i) item db \<and>
           find_by_id_map E db m = Some (snd r)"
proof (induction m)
  case Nil
  then show ?case by simp
next
  case (Cons p m)
  obtain s i where p: "p = (s, i)" by (cases p)
  show ?case
  proof (cases "find (has_external_id s i) db")
    case None
    with Cons show ?thesis
      by (simp add: p find_by_id_map_store del: find_by_id_map.simps(2))
  next
    case (Some r)
    with Cons.prems have "db' = UpdateExisting (has_external_id s i) item db"
      by (simp add: p)
    moreover from Some Cons.prems(1) have "find_by_id_map E db (p # m) = Some (snd r)"
      by (simp add: p find_by_id_map_store del: find_by_id_map.simps(2))
    ultimately show ?thesis using Some by blast
  qed
qed

lemma update_found_None:
  "FindItem E = FindByExternalId \<Longrightarrow> update_found db item m = None \<Longrightarrow>
   find_by_id_map E db m = None"
proof (induction m)
  case Nil
  then show ?case by simp
next
  case (Cons p m)
  obtain s i where p: "p = (s, i)" by (cases p)
  from Cons show ?case
    by (auto simp: p find_by_id_map_store simp del: find_by_id_map.simps(2) split: option.splits)
qed

lemma InsertOrUpdate_advances:
  assumes store: "FindItem E = FindByExternalId"
    and new: "T \<le> item_last_modified item"
    and old: "\<And>a. find_by_id_map E db (item_ids item) = Some a \<Longrightarrow> item_last_modified a < T"
  shows "advances T db (snd (InsertOrUpdate db item))"
proof (cases "update_found db item (item_ids item)")
  case None
  then show ?thesis
    using new by (simp add: InsertOrUpdate_def Insert_def Let_def advances_append)
next
  case (Some kd)
  obtain k db' where kd: "kd = (k, db')" by (cases kd)
  from update_found_Some [OF store Some [unfolded kd]]
  obtain s i r where r: "find (has_external_id s i) db = Some r"
    and db': "db' = UpdateExisting (has_external_id s i) item db"
    and f: "find_by_id_map E db (item_ids item) = Some (snd r)"
    by blast
  from old [OF f] have "item_last_modified (snd r) < T" .
  from advances_UpdateExisting [OF r this new] show ?thesis
    by (simp add: InsertOrUpdate_def Some kd db')
qed

lemma find_UpdateExisting_same:
  "find Q db = Some r \<Longrightarrow> Q (fst r, overwrite item (snd r)) \<Longrightarrow>
   find Q (UpdateExisting Q item db) = Some (fst r, overwrite item (snd r))"
  by (induction db) (auto split: if_splits)

lemma find_UpdateExisting_other:
  "find P db = None \<Longrightarrow> find Q db = Some r \<Longrightarrow> P (fst r, overwrite item (snd r)) \<Longrightarrow>
   find P (UpdateExisting Q item db) = Some (fst r, overwrite item (snd r))"
  by (induction db) (auto split: if_splits)

lemma find_append_new: "find P db = None \<Longrightarrow> P x \<Longrightarrow> find P (db @ [x]) = Some x"
  by (induction db) (auto split: if_splits)

lemma map_of_rev_first:
  "sorted_wrt (<) (map fst ((s, i) # rest)) \<Longrightarrow> map_of (rev ((s :: nat, i) # rest)) s = Some i"
proof -
  assume "sorted_wrt (<) (map fst ((s, i) # rest))"
  then have "s \<notin> fst ` set rest" by force
  then have "map_of (rev rest) s = None"
    by (simp add: map_of_eq_None_iff)
  then show ?thesis by (simp add: map_add_def)
qed

lemma has_first_pair_overwrite:
  assumes "sorted_wrt (<) (map fst ((s, i) # rest))" and "item_ids item = (s, i) # rest"
  shows "has_external_id s i (k, overwrite item old)"
proof -
  have "item_ids (overwrite item old) =
          foldl (\<lambda>a p. map_assign (fst p) (snd p) a) (item_ids old) ((s, i) # rest)"
    by (simp add: overwrite_def assms(2) case_prod_unfold)
  then have "map_of (item_ids (overwrite item old)) = map_of (item_ids old) ++ map_of (rev ((s, i) # rest))"
    by (simp only: map_of_foldl_map_assign)
  with map_of_rev_first [OF assms(1)] show ?thesis
    by (simp add: has_external_id_def map_add_def)
qed

lemma InsertOrUpdate_first_recent:
  assumes sorted: "sorted_wrt (<) (map fst ((s, i) # rest))"
    and ids: "item_ids item = (s, i) # rest"
    and new: "T \<le> item_last_modified item"
  shows "recent T (find (has_external_id s i) (snd (InsertOrUpdate db item)))"
proof -
  have lm: "\<And>old. item_last_modified (overwrite item old) = item_last_modified item"
    by (simp add: overwrite_def)
  have has: "\<And>k old. has_external_id s i (k, overwrite item old)"
    using has_first_pair_overwrite [OF sorted ids] .
  show ?thesis
  proof (cases "find (has_external_id s i) db")
    case (Some r)
    from find_UpdateExisting_same [OF Some has] new show ?thesis
      by (simp add: InsertOrUpdate_def ids Some recent_def lm)
  next
    case None
    show ?thesis
    proof (cases "update_found db item rest")
      case none: None
      have "has_external_id s i (mint_id db, item\<lparr>item_id := mint_id db\<rparr>)"
        by (simp add: has_external_id_def ids)
      from find_append_new [OF None this] new show ?thesis
        by (simp add: InsertOrUpdate_def ids None none Insert_def Let_def recent_def)
    next
      case some: (Some kd)
      obtain k db' where kd: "kd = (k, db')" by (cases kd)
      from update_found_UpdateExisting [OF some [unfolded kd]]
      obtain s' i' r where r: "find (has_external_id s' i') db = Some r"
        and db': "db' = UpdateExisting (has_external_id s' i') item db"
        by blast
      from find_UpdateExisting_other [OF None r has] new show ?thesis
        by (simp add: InsertOrUpdate_def ids None some kd db' recent_def lm)
    qed
  qed
qed

lemma update_from_node_cases:
  assumes "UpdateItem E = InsertOrUpdate"
  shows "AnimeDatabase_items (update_from_node E T node m w) =
     (if fst (map_subscript (GetCurrentServiceId E) m) = [] then AnimeDatabase_items w
      else snd (InsertOrUpdate (AnimeDatabase_items w) (build_item E node m T)))"
  using map_subscript_present [of "GetCurrentServiceId E" m]
  by (auto simp: update_from_node_def assms split: prod.splits)

lemma load_anime_node_advances:
  assumes store: "FindItem E = FindByExternalId" and upd: "UpdateItem E = InsertOrUpdate"
    and blank: "item_ids (NewItem E) = []"
  shows "advances T (AnimeDatabase_items w) (AnimeDatabase_items (load_anime_node E T w node))"
proof -
  let ?m = "read_id_map E node" and ?db = "AnimeDatabase_items w"
  have ids: "item_ids (build_item E node ?m T) = ?m"
    using item_ids_build_item [OF blank sorted_read_id_map] .
  show ?thesis
  proof (cases "\<exists>a. find_by_id_map E ?db ?m = Some a \<and> T \<le> item_last_modified a")
    case True
    then show ?thesis
      by (auto simp: load_anime_node_def Let_def advances_refl)
  next
    case False
    then have old: "\<And>a. find_by_id_map E ?db (item_ids (build_item E node ?m T)) = Some a \<Longrightarrow>
        item_last_modified a < T"
      by (auto simp: ids)
    have new: "T \<le> item_last_modified (build_item E node ?m T)"
      by (simp add: item_last_modified_build_item)
    have "advances T ?db (AnimeDatabase_items (update_from_node E T node ?m w))"
      using InsertOrUpdate_advances [OF store new old]
      by (simp add: update_from_node_cases [OF upd] advances_refl)
    with False show ?thesis
      by (auto simp: load_anime_node_def Let_def split: option.splits)
  qed
qed

lemma load_anime_node_settles:
  assumes store: "FindItem E = FindByExternalId" and upd: "UpdateItem E = InsertOrUpdate"
    and blank: "item_ids (NewItem E) = []"
  shows "settled E T (AnimeDatabase_items (load_anime_node E T w node)) node"
proof -
  let ?m = "read_id_map E node" and ?db = "AnimeDatabase_items w"
  show ?thesis
  proof (cases "\<exists>a. find_by_id_map E ?db ?m = Some a \<and> T \<le> item_last_modified a")
    case True
    then show ?thesis
      by (auto simp: load_anime_node_def Let_def settled_def)
  next
    case False
    then have l: "AnimeDatabase_items (load_anime_node E T w node) =
        AnimeDatabase_items (update_from_node E T node ?m w)"
      by (auto simp: load_anime_node_def Let_def split: option.splits)
    show ?thesis
    proof (cases "fst (map_subscript (GetCurrentServiceId E) ?m) = []")
      case True
      then show ?thesis by (simp add: settled_def)
    next
      case present: False
      then have "?m \<noteq> []" using map_subscript_present by blast
      then obtain s i rest where m: "?m = (s, i) # rest"
        by (cases ?m) auto
      let ?item = "build_item E node ?m T"
      let ?db' = "snd (InsertOrUpdate ?db ?item)"
      have sorted: "sorted_wrt (<) (map fst ((s, i) # rest))"
        using sorted_read_id_map [of E node] by (simp add: m)
      have ids: "item_ids ?item = (s, i) # rest"
        using item_ids_build_item [OF blank sorted_read_id_map [of E node], of node T]
        by (simp add: m)
      have new: "T \<le> item_last_modified ?item"
        by (simp add: item_last_modified_build_item)
      from InsertOrUpdate_first_recent [OF sorted ids new]
      have "recent T (find (has_external_id s i) ?db')" .
      then have "\<exists>a. find_by_id_map E ?db' ?m = Some a \<and> T \<le> item_last_modified a"
        by (auto simp: m find_by_id_map_store [OF store] recent_def
            simp del: find_by_id_map.simps(2) split: option.splits)
      moreover have "AnimeDatabase_items (load_anime_node E T w node) = ?db'"
        using present by (simp add: l update_from_node_cases [OF upd])
      ultimately show ?thesis
        by (auto simp: settled_def)
    qed
  qed
qed

lemma foldl_settled_kept:
  assumes store: "FindItem E = FindByExternalId" and upd: "UpdateItem E = InsertOrUpdate"
    and blank: "item_ids (NewItem E) = []"
  shows "settled E T (AnimeDatabase_items w) node \<Longrightarrow>
         settled E T (AnimeDatabase_items (foldl (load_anime_node E T) w nodes)) node"
proof (induction nodes arbitrary: w)
  case Nil
  then show ?case by simp
next
  case (Cons n nodes)
  from settled_advances [OF store load_anime_node_advances [OF store upd blank] Cons.prems]
  have "settled E T (AnimeDatabase_items (load_anime_node E T w n)) node" .
  from Cons.IH [OF this] show ?case by simp
qed

lemma foldl_settles_all:
  assumes store: "FindItem E = FindByExternalId" and upd: "UpdateItem E = InsertOrUpdate"
    and blank: "item_ids (NewItem E) = []"
  shows "\<forall>node \<in> set nodes.
           settled E T (AnimeDatabase_items (foldl (load_anime_node E T) w nodes)) node"
proof (induction nodes arbitrary: w)
  case Nil
  then show ?case by simp
next
  case (Cons n nodes)
  have "settled E T (AnimeDatabase_items (foldl (load_anime_node E T) (load_anime_node E T w n) nodes)) n"
    using foldl_settled_kept [OF store upd blank load_anime_node_settles [OF store upd blank]] .
  with Cons.IH [of "load_anime_node E T w n"] show ?case by simp
qed

lemma foldl_settled_unchanged:
  "\<forall>node \<in> set nodes. settled E T (AnimeDatabase_items w) node \<Longrightarrow>
   AnimeDatabase_items (foldl (load_anime_node E T) w nodes) = AnimeDatabase_items w"
proof (induction nodes arbitrary: w)
  case Nil
  then show ?case by simp
next
  case (Cons n nodes)
  from Cons.prems have u: "AnimeDatabase_items (load_anime_node E T w n) = AnimeDatabase_items w"
    by (simp add: settled_unchanged)
  with Cons.prems have "\<forall>node \<in> set nodes. settled E T (AnimeDatabase_items (load_anime_node E T w n)) node"
    by simp
  from Cons.IH [OF this] u show ?case by simp
qed

lemma load_anime_node_cong:
  "items w = items w' \<Longrightarrow> AnimeDatabase_items w = AnimeDatabase_items w' \<Longrightarrow>
   items (load_anime_node E T w node) = items (load_anime_node E T w' node) \<and>
   AnimeDatabase_items (load_anime_node E T w node) = AnimeDatabase_items (load_anime_node E T w' node)"
  by (auto simp: load_anime_node_def update_from_node_def Let_def split: option.splits prod.splits)

lemma foldl_load_anime_node_cong:
  "items w = items w' \<Longrightarrow> AnimeDatabase_items w = AnimeDatabase_items w' \<Longrightarrow>
   items (foldl (load_anime_node E T) w nodes) = items (foldl (load_anime_node E T) w' nodes) \<and>
   AnimeDatabase_items (foldl (load_anime_node E T) w nodes) =
     AnimeDatabase_items (foldl (load_anime_node E T) w' nodes)"
proof (induction nodes arbitrary: w w')
  case Nil
  then show ?case by simp
next
  case (Cons n nodes)
  from load_anime_node_cong [OF Cons.prems, of E T n]
  have "items (load_anime_node E T w n) = items (load_anime_node E T w' n)"
    and "AnimeDatabase_items (load_anime_node E T w n) =
         AnimeDatabase_items (load_anime_node E T w' n)"
    by simp_all
  from Cons.IH [OF this] show ?case by simp
qed

lemma LoadString_Some:
  assumes "xml_load_string E data = Some document"
  shows "AnimeDatabase_items (snd (LoadString E data w)) =
           AnimeDatabase_items
             (foldl (load_anime_node E (modified_of E document)) (w\<lparr>items := []\<rparr>)
                (anime_nodes document))"
    and "items (snd (LoadString E data w)) =
           items
             (foldl (load_anime_node E (modified_of E document)) (w\<lparr>items := []\<rparr>)
                (anime_nodes document))"
proof -
  let ?w2 = "w\<lparr>current_season := SeasonFromString E
                (XmlReadStr (child (child (Some document) ''season'') ''info'') ''name''),
             items := []\<rparr>"
  have c: "items (foldl (load_anime_node E (modified_of E document)) ?w2 (anime_nodes document)) =
           items (foldl (load_anime_node E (modified_of E document)) (w\<lparr>items := []\<rparr>)
                (anime_nodes document)) \<and>
        AnimeDatabase_items (foldl (load_anime_node E (modified_of E document)) ?w2 (anime_nodes document)) =
           AnimeDatabase_items (foldl (load_anime_node E (modified_of E document)) (w\<lparr>items := []\<rparr>)
                (anime_nodes document))"
    by (rule foldl_load_anime_node_cong) simp_all
  show "AnimeDatabase_items (snd (LoadString E data w)) =
           AnimeDatabase_items
             (foldl (load_anime_node E (modified_of E document)) (w\<lparr>items := []\<rparr>)
                (anime_nodes document))"
    using c by (simp add: LoadString_def assms Let_def modified_of_def anime_nodes_def)
  show "items (snd (LoadString E data w)) =
           items
             (foldl (load_anime_node E (modified_of E document)) (w\<lparr>items := []\<rparr>)
                (anime_nodes document))"
    using c by (simp add: LoadString_def assms Let_def modified_of_def anime_nodes_def)
qed

lemma LoadString_same_database:
  assumes "xml_load_string E data = Some document"
    and "AnimeDatabase_items w = AnimeDatabase_items w'"
  shows "items (snd (LoadString E data w)) = items (snd (LoadString E data w'))"
proof -
  have "items (foldl (load_anime_node E (modified_of E document)) (w\<lparr>items := []\<rparr>)
                (anime_nodes document)) =
        items (foldl (load_anime_node E (modified_of E document)) (w'\<lparr>items := []\<rparr>)
                (anime_nodes document)) \<and>
        AnimeDatabase_items (foldl (load_anime_node E (modified_of E document)) (w\<lparr>items := []\<rparr>)
                (anime_nodes document)) =
        AnimeDatabase_items (foldl (load_anime_node E (modified_of E document)) (w'\<lparr>items := []\<rparr>)
                (anime_nodes document))"
    by (rule foldl_load_anime_node_cong) (simp_all add: assms(2))
  then show ?thesis by (simp add: LoadString_Some(2) [OF assms(1)])
qed

lemma second_load_database:
  assumes store: "FindItem E = FindByExternalId" and upd: "UpdateItem E = InsertOrUpdate"
    and blank: "item_ids (NewItem E) = []"
  shows "AnimeDatabase_items (snd (LoadString E data (snd (LoadString E data w)))) =
           AnimeDatabase_items (snd (LoadString E data w))"
proof (cases "xml_load_string E data")
  case None
  then show ?thesis by (simp add: LoadString_def)
next
  case (Some document)
  let ?w1 = "snd (LoadString E data w)"
  have "\<forall>node \<in> set (anime_nodes document).
          settled E (modified_of E document) (AnimeDatabase_items ?w1) node"
    unfolding LoadString_Some(1) [OF Some]
    by (rule foldl_settles_all [OF store upd blank])
  then have "\<forall>node \<in> set (anime_nodes document).
          settled E (modified_of E document) (AnimeDatabase_items (?w1\<lparr>items := []\<rparr>)) node"
    by simp
  from foldl_settled_unchanged [OF this] show ?thesis
    by (simp add: LoadString_Some(1) [OF Some, of ?w1])
qed

text \<open>
  C8 (as amended). With the library store for \<^verbatim>\<open>FindItem\<close> and \<^verbatim>\<open>UpdateItem\<close>,
  loading the same document a second time changes no library record, in the timestamp or
  in any other field: every entry of the document either has no identifier for the active
  service or resolves to a record as recent as the document, so nothing is overwritten and
  nothing is inserted. The membership list of the second load need not be that of the
  first; from the second load on it is the same in every load.
\<close>

theorem second_load_changes_no_record:
  assumes "FindItem E = FindByExternalId" and "UpdateItem E = InsertOrUpdate"
    and "item_ids (NewItem E) = []"
  shows "AnimeDatabase_items (snd (LoadString E data (snd (LoadString E data w)))) =
           AnimeDatabase_items (snd (LoadString E data w)) \<and>
         items (snd (LoadString E data (snd (LoadString E data (snd (LoadString E data w)))))) =
           items (snd (LoadString E data (snd (LoadString E data w))))"
proof (cases "xml_load_string E data")
  case None
  then show ?thesis by (simp add: LoadString_def)
next
  case (Some document)
  from second_load_database [OF assms]
  have db: "AnimeDatabase_items (snd (LoadString E data (snd (LoadString E data w)))) =
           AnimeDatabase_items (snd (LoadString E data w))" .
  from LoadString_same_database [OF Some db] db show ?thesis by simp
qed

lemmas twice_defs = twice_env_def twice_entries_def empty_library_def

lemma first_load:
  "snd (LoadString twice_env ''doc'' empty_library) =
     empty_library
       \<lparr>items := [1],
        AnimeDatabase_items :=
          [(1, blank_item\<lparr>item_id := 1, item_source := 1,
                 item_ids := [(1, ''m1''), (2, ''k1'')], item_last_modified := 1000,
                 item_title := ''Title''\<rparr>)],
        events := [SaveDatabase]\<rparr>"
  by (simp add: twice_defs sample_defs reference_defs load_defs)

text \<open>The claim as it was stated fails: the first entry is dropped by the first load
  (no MyAnimeList identifier, no match) and resolves in the second load to the record that
  the first load created for the second entry, so the list grows from one identifier to
  two.\<close>

theorem reload_membership_counterexample:
  "items (snd (LoadString twice_env ''doc'' empty_library)) = [1] \<and>
   items (snd (LoadString twice_env ''doc'' (snd (LoadString twice_env ''doc'' empty_library))))
     = [1, 1]"
  unfolding first_load
  by (simp add: twice_defs sample_defs reference_defs load_defs)

theorem second_load_changes_no_record_witness:
  "FindItem twice_env = FindByExternalId \<and> UpdateItem twice_env = InsertOrUpdate \<and>
   item_ids (NewItem twice_env) = [] \<and>
   AnimeDatabase_items
     (snd (LoadString twice_env ''doc'' (snd (LoadString twice_env ''doc'' empty_library))))
     = AnimeDatabase_items (snd (LoadString twice_env ''doc'' empty_library)) \<and>
   items (snd (LoadString twice_env ''doc''
            (snd (LoadString twice_env ''doc'' (snd (LoadString twice_env ''doc'' empty_library))))))
     = items (snd (LoadString twice_env ''doc'' (snd (LoadString twice_env ''doc'' empty_library))))"
proof -
  have 1: "FindItem twice_env = FindByExternalId" and 2: "UpdateItem twice_env = InsertOrUpdate"
    and 3: "item_ids (NewItem twice_env) = []"
    by (simp_all add: twice_env_def reference_env_def blank_item_def)
  from second_load_changes_no_record [OF 1 2 3, of "''doc''" empty_library] 1 2 3
  show ?thesis by simp
qed

text \<open>After the second load the list names record 1 twice.\<close>

lemma loaded_twice:
  "snd (LoadString twice_env ''doc'' (snd (LoadString twice_env ''doc'' empty_library))) =
     empty_library
       \<lparr>items := [1, 1],
        AnimeDatabase_items :=
          [(1, blank_item\<lparr>item_id := 1, item_source := 1,
                 item_ids := [(1, ''m1''), (2, ''k1'')], item_last_modified := 1000,
                 item_title := ''Title''\<rparr>)],
        events := [SaveDatabase, SaveDatabase]\<rparr>"
  unfolding first_load
  by (simp add: twice_defs sample_defs reference_defs load_defs)

subsection \<open>Review\<close>

declare check_invalid_items.simps [simp del]

lemma check_invalid_items_filter:
  "check_invalid_items E hide_nsfw date_start date_end db i its =
     take i its @
     filter (\<lambda>anime_id. \<not> is_invalid_item E hide_nsfw date_start date_end db anime_id)
       (drop i its)"
proof (induction E hide_nsfw date_start date_end db i its rule: check_invalid_items.induct)
  case (1 E hide_nsfw date_start date_end db i its)
  show ?case
  proof (cases "i < length its")
    case False
    then show ?thesis by (simp add: check_invalid_items.simps [of _ _ _ _ _ i its])
  next
    case True
    then have d: "drop i its = its ! i # drop (Suc i) its"
      by (simp add: Cons_nth_drop_Suc)
    show ?thesis
    proof (cases "is_invalid_item E hide_nsfw date_start date_end db (its ! i)")
      case inv: True
      have t: "take i (erase_at i its) = take i its" "drop i (erase_at i its) = drop (Suc i) its"
        using True by (simp_all add: erase_at_def)
      from "1.IH"(1) [OF True inv] True inv show ?thesis
        by (simp add: check_invalid_items.simps [of _ _ _ _ _ i its] t d)
    next
      case ninv: False
      from "1.IH"(2) [OF True ninv] True ninv show ?thesis
        by (simp add: check_invalid_items.simps [of _ _ _ _ _ i its] d take_Suc_conv_app_nth)
    qed
  qed
qed

lemma set_check_missing_items:
  "set (check_missing_items E hide_nsfw date_start date_end db its) =
     set its \<union>
     {fst r | r. r \<in> set db \<and> \<not> is_nsfw E hide_nsfw (snd r) \<and>
                 is_within_date_interval E date_start date_end (snd r)}"
proof (induction db arbitrary: its)
  case Nil
  then show ?case by simp
next
  case (Cons r db)
  obtain anime_id anime_item where r: "r = (anime_id, anime_item)" by (cases r)
  show ?case unfolding r
    by (simp add: Cons.IH) (auto simp: r)
qed

lemma distinct_check_missing_items:
  "distinct its \<Longrightarrow> distinct (check_missing_items E hide_nsfw date_start date_end db its)"
proof (induction db arbitrary: its)
  case Nil
  then show ?case by simp
next
  case (Cons r db)
  obtain anime_id anime_item where r: "r = (anime_id, anime_item)" by (cases r)
  from Cons.prems show ?case unfolding r
    by (auto intro!: Cons.IH)
qed

lemma items_Review:
  "items (Review E hide_nsfw w) =
     check_missing_items E hide_nsfw (fst (GetInterval E (current_season w)))
       (snd (GetInterval E (current_season w))) (AnimeDatabase_items w)
       (filter (\<lambda>anime_id. \<not> is_invalid_item E hide_nsfw (fst (GetInterval E (current_season w)))
                  (snd (GetInterval E (current_season w))) (AnimeDatabase_items w) anime_id)
          (items w))"
  by (simp add: Review_def check_invalid_items_filter split: prod.splits)

lemma set_check_invalid_items:
  "set (check_invalid_items E hide_nsfw date_start date_end db 0 its) =
     {anime_id \<in> set its. \<not> is_invalid_item E hide_nsfw date_start date_end db anime_id}"
  by (simp add: check_invalid_items_filter)

lemma in_items_Review:
  "anime_id \<in> set (items (Review E hide_nsfw w)) \<longleftrightarrow>
     (anime_id \<in> set (items w) \<and>
      \<not> is_invalid_item E hide_nsfw (fst (GetInterval E (current_season w)))
          (snd (GetInterval E (current_season w))) (AnimeDatabase_items w) anime_id) \<or>
     (\<exists>anime_item. (anime_id, anime_item) \<in> set (AnimeDatabase_items w) \<and>
        \<not> is_nsfw E hide_nsfw anime_item \<and>
        is_within_date_interval E (fst (GetInterval E (current_season w)))
          (snd (GetInterval E (current_season w))) anime_item)"
  by (auto simp: items_Review set_check_missing_items)

lemmas review_defs =
  Review_def is_invalid_item_def is_nsfw_def is_within_date_interval_def erase_at_def
  review_env_def review_world_def dated_item_def

text \<open>
  C4 (as amended). A membership list without duplicates before \<open>Review\<close> has none after
  it, however many times a library record qualifies under the policy: the second loop
  appends an identifier only when the list does not hold it yet.
\<close>

theorem Review_keeps_distinct:
  "distinct (items w) \<Longrightarrow> distinct (items (Review E hide_nsfw w))"
  by (simp add: items_Review distinct_check_missing_items)

text \<open>The claim as it was stated fails for a list that has duplicates before the call:
  a list that names record 5 twice, a record inside the season, names it twice after
  \<open>Review\<close>; so does the list that two loads of the document above have built.\<close>

theorem Review_duplicates_counterexample:
  "items (Review review_env True (review_world [(5, dated_item 5 2018 4 7)] [5, 5])) = [5, 5] \<and>
   \<not> distinct (items (Review review_env True (review_world [(5, dated_item 5 2018 4 7)] [5, 5]))) \<and>
   items (Review twice_env True
     (snd (LoadString twice_env ''doc'' (snd (LoadString twice_env ''doc'' empty_library)))))
     = [1, 1]"
  unfolding loaded_twice
  by (simp add: review_defs twice_defs sample_defs reference_defs check_invalid_items.simps)

theorem Review_keeps_distinct_witness:
  "distinct (items (review_world [(5, dated_item 5 2018 4 7), (6, dated_item 6 2018 5 1)] [5])) \<and>
   items (Review review_env True (review_world [(5, dated_item 5 2018 4 7), (6, dated_item 6 2018 5 1)] [5])) = [5, 6] \<and>
   distinct (items (Review review_env True (review_world [(5, dated_item 5 2018 4 7), (6, dated_item 6 2018 5 1)] [5])))"
proof -
  have d: "distinct (items (review_world [(5, dated_item 5 2018 4 7), (6, dated_item 6 2018 5 1)] [5]))"
    by (simp add: review_world_def)
  have v: "items (Review review_env True (review_world [(5, dated_item 5 2018 4 7), (6, dated_item 6 2018 5 1)] [5])) = [5, 6]"
    by (simp add: review_defs sample_defs reference_defs check_invalid_items.simps)
  from Review_keeps_distinct [OF d, of review_env True] d v show ?thesis by simp
qed

text \<open>
  C5. A library record whose start date is unknown: \<^verbatim>\<open>anime::IsValidDate\<close> rejects it
  and its \<^verbatim>\<open>year()\<close> is 0, the two tests that the loops of \<open>Review\<close> make. The
  first loop erases its identifier exactly when the content check says so, whatever the
  interval; it is outside every interval for the second loop. After \<open>Review\<close> the
  record is in the membership list if and only if it was there before and the content
  check does not exclude it: the date never removes it, and it is never added.
\<close>

theorem unknown_start_date:
  assumes "FindItemById E (AnimeDatabase_items w) anime_id = Some anime_item"
    and "\<forall>r \<in> set (AnimeDatabase_items w). fst r = anime_id \<longrightarrow> snd r = anime_item"
    and "\<not> IsValidDate E (item_date_start anime_item)"
    and "date_year (item_date_start anime_item) = 0"
  shows "is_invalid_item E hide_nsfw date_start date_end (AnimeDatabase_items w) anime_id
           = is_nsfw E hide_nsfw anime_item \<and>
         \<not> is_within_date_interval E date_start date_end anime_item \<and>
         (anime_id \<in> set (items (Review E hide_nsfw w)) \<longleftrightarrow>
            anime_id \<in> set (items w) \<and> \<not> is_nsfw E hide_nsfw anime_item)"
proof -
  have a: "\<And>ds de. is_invalid_item E hide_nsfw ds de (AnimeDatabase_items w) anime_id
           = is_nsfw E hide_nsfw anime_item"
    using assms(1,3) by (simp add: is_invalid_item_def)
  have b: "\<And>ds de. \<not> is_within_date_interval E ds de anime_item"
    using assms(4) by (simp add: is_within_date_interval_def)
  have c: "\<And>it. (anime_id, it) \<in> set (AnimeDatabase_items w) \<Longrightarrow> it = anime_item"
    using assms(2) by force
  have "anime_id \<in> set (items (Review E hide_nsfw w)) \<longleftrightarrow>
            anime_id \<in> set (items w) \<and> \<not> is_nsfw E hide_nsfw anime_item"
    unfolding in_items_Review a using b c by blast
  with a b show ?thesis by blast
qed

theorem unknown_start_date_witness:
  "FindItemById review_env (AnimeDatabase_items (review_world [(8, dated_item 8 0 0 0)] [8])) 8
     = Some (dated_item 8 0 0 0) \<and>
   \<not> IsValidDate review_env (item_date_start (dated_item 8 0 0 0)) \<and>
   date_year (item_date_start (dated_item 8 0 0 0)) = 0 \<and>
   \<not> is_nsfw review_env True (dated_item 8 0 0 0) \<and>
   8 \<in> set (items (Review review_env True (review_world [(8, dated_item 8 0 0 0)] [8]))) \<and>
   8 \<notin> set (items (Review review_env True (review_world [(8, dated_item 8 0 0 0)] [])))"
proof -
  let ?db = "[(8, dated_item 8 0 0 0)]"
  have 1: "\<And>its. FindItemById review_env (AnimeDatabase_items (review_world ?db its)) 8
             = Some (dated_item 8 0 0 0)"
    by (simp add: review_defs sample_defs reference_defs)
  have 2: "\<And>its. \<forall>r \<in> set (AnimeDatabase_items (review_world ?db its)).
             fst r = 8 \<longrightarrow> snd r = dated_item 8 0 0 0"
    by (simp add: review_world_def SeasonDatabase_new_def)
  have 3: "\<not> IsValidDate review_env (item_date_start (dated_item 8 0 0 0))"
    by (simp add: review_defs sample_defs reference_defs)
  have 4: "date_year (item_date_start (dated_item 8 0 0 0)) = 0"
    by (simp add: dated_item_def)
  have 5: "\<not> is_nsfw review_env True (dated_item 8 0 0 0)"
    by (simp add: review_defs sample_defs reference_defs)
  from unknown_start_date [OF 1 [of "[8]"] 2 [of "[8]"] 3 4, where hide_nsfw = True]
       unknown_start_date [OF 1 [of "[]"] 2 [of "[]"] 3 4, where hide_nsfw = True] 1 3 4 5
  show ?thesis
    by (simp add: review_world_def)
qed

text \<open>
  C6 (as amended). The interval is closed at both ends: the test is
  \<^verbatim>\<open>date_start <= anime_start && anime_start <= date_end\<close>. A record whose start date
  (with a year and a month) is the interval's end bound is inside the interval; the first
  loop erases it only for its content, and after \<open>Review\<close> it is in the membership list
  if and only if the content check does not exclude it, whether it was there before or not.
\<close>

theorem start_date_at_interval_end:
  assumes "GetInterval E (current_season w) = (date_start, date_end)"
    and "FindItemById E (AnimeDatabase_items w) anime_id = Some anime_item"
    and "(anime_id, anime_item) \<in> set (AnimeDatabase_items w)"
    and "\<forall>r \<in> set (AnimeDatabase_items w). fst r = anime_id \<longrightarrow> snd r = anime_item"
    and "item_date_start anime_item = date_end"
    and "date_year date_end \<noteq> 0" and "date_month date_end \<noteq> 0"
    and "date_le E date_start date_end" and "date_le E date_end date_end"
  shows "is_within_date_interval E date_start date_end anime_item \<and>
         is_invalid_item E hide_nsfw date_start date_end (AnimeDatabase_items w) anime_id
           = is_nsfw E hide_nsfw anime_item \<and>
         (anime_id \<in> set (items (Review E hide_nsfw w)) \<longleftrightarrow> \<not> is_nsfw E hide_nsfw anime_item)"
proof -
  have a: "is_within_date_interval E date_start date_end anime_item"
    using assms(5-9) by (simp add: is_within_date_interval_def)
  have b: "is_invalid_item E hide_nsfw date_start date_end (AnimeDatabase_items w) anime_id
           = is_nsfw E hide_nsfw anime_item"
    using assms(2) a by (simp add: is_invalid_item_def)
  have c: "\<And>it. (anime_id, it) \<in> set (AnimeDatabase_items w) \<Longrightarrow> it = anime_item"
    using assms(4) by force
  have "anime_id \<in> set (items (Review E hide_nsfw w)) \<longleftrightarrow> \<not> is_nsfw E hide_nsfw anime_item"
    unfolding in_items_Review assms(1) fst_conv snd_conv b using a c assms(3) by blast
  with a b show ?thesis by blast
qed

text \<open>The claim as it was stated fails: a record that starts on 30 June 2018, the end
  bound of spring 2018, stays in the list, and is added to an empty one.\<close>

theorem half_open_interval_counterexample:
  "GetInterval review_env spring_2018 = (\<lparr>date_year = 2018, date_month = 4, date_day = 1\<rparr>,
      \<lparr>date_year = 2018, date_month = 6, date_day = 30\<rparr>) \<and>
   IsValidDate review_env (item_date_start (dated_item 7 2018 6 30)) \<and>
   items (Review review_env True (review_world [(7, dated_item 7 2018 6 30)] [7])) = [7] \<and>
   items (Review review_env True (review_world [(7, dated_item 7 2018 6 30)] [])) = [7]"
  by (simp add: review_defs sample_defs reference_defs check_invalid_items.simps)

theorem start_date_at_interval_end_witness:
  "GetInterval review_env (current_season (review_world [(7, dated_item 7 2018 6 30)] []))
     = (\<lparr>date_year = 2018, date_month = 4, date_day = 1\<rparr>,
        \<lparr>date_year = 2018, date_month = 6, date_day = 30\<rparr>) \<and>
   FindItemById review_env (AnimeDatabase_items (review_world [(7, dated_item 7 2018 6 30)] [])) 7
     = Some (dated_item 7 2018 6 30) \<and>
   item_date_start (dated_item 7 2018 6 30) = \<lparr>date_year = 2018, date_month = 6, date_day = 30\<rparr> \<and>
   date_le review_env \<lparr>date_year = 2018, date_month = 4, date_day = 1\<rparr>
     \<lparr>date_year = 2018, date_month = 6, date_day = 30\<rparr> \<and>
   date_le review_env \<lparr>date_year = 2018, date_month = 6, date_day = 30\<rparr>
     \<lparr>date_year = 2018, date_month = 6, date_day = 30\<rparr> \<and>
   \<not> is_nsfw review_env True (dated_item 7 2018 6 30) \<and>
   is_within_date_interval review_env \<lparr>date_year = 2018, date_month = 4, date_day = 1\<rparr>
     \<lparr>date_year = 2018, date_month = 6, date_day = 30\<rparr> (dated_item 7 2018 6 30) \<and>
   7 \<in> set (items (Review review_env True (review_world [(7, dated_item 7 2018 6 30)] [])))"
proof -
  let ?w = "review_world [(7, dated_item 7 2018 6 30)] []"
  let ?s = "\<lparr>date_year = 2018, date_month = 4, date_day = 1\<rparr>"
  let ?e = "\<lparr>date_year = 2018, date_month = 6, date_day = 30\<rparr>"
  have 1: "GetInterval review_env (current_season ?w) = (?s, ?e)"
    by (simp add: review_defs sample_defs reference_defs)
  have 2: "FindItemById review_env (AnimeDatabase_items ?w) 7 = Some (dated_item 7 2018 6 30)"
    by (simp add: review_defs sample_defs reference_defs)
  have 3: "(7, dated_item 7 2018 6 30) \<in> set (AnimeDatabase_items ?w)"
    by (simp add: review_world_def SeasonDatabase_new_def)
  have 4: "\<forall>r \<in> set (AnimeDatabase_items ?w). fst r = 7 \<longrightarrow> snd r = dated_item 7 2018 6 30"
    by (simp add: review_world_def SeasonDatabase_new_def)
  have 5: "item_date_start (dated_item 7 2018 6 30) = ?e"
    by (simp add: dated_item_def)
  have 6: "date_year ?e \<noteq> 0" "date_month ?e \<noteq> 0" by simp_all
  have 7: "date_le review_env ?s ?e" "date_le review_env ?e ?e"
    by (simp_all add: review_env_def reference_defs)
  have 8: "\<not> is_nsfw review_env True (dated_item 7 2018 6 30)"
    by (simp add: review_defs sample_defs reference_defs)
  from start_date_at_interval_end [OF 1 2 3 4 5 6 7, where hide_nsfw = True] 1 2 5 7 8
  show ?thesis
    by simp
qed

subsection \<open>The refresh heuristic\<close>

lemma refresh_loop_result:
  "c \<le> 20 \<Longrightarrow> refresh_loop E db its c = (required, looked_up) \<Longrightarrow>
   required = (20 < c + int (length (filter (needs_refresh E db) its))) \<and>
   looked_up = take (length looked_up) its \<and>
   (if required
    then c + int (length (filter (needs_refresh E db) looked_up)) = 21 \<and>
         looked_up \<noteq> [] \<and> needs_refresh E db (last looked_up)
    else looked_up = its)"
proof (induction its arbitrary: c required looked_up)
  case Nil
  then show ?case by auto
next
  case (Cons anime_id rest)
  let ?c = "if needs_refresh E db anime_id then c + 1 else c"
  show ?case
  proof (cases "?c > 20")
    case True
    with Cons.prems have n: "needs_refresh E db anime_id" and c: "c = 20"
      by (auto split: if_splits)
    from Cons.prems True have "required" "looked_up = [anime_id]"
      by (auto simp: Let_def split: if_splits)
    with n c show ?thesis by simp
  next
    case False
    then have le: "?c \<le> 20" by simp
    obtain r ls where rl: "refresh_loop E db rest ?c = (r, ls)" by (cases "refresh_loop E db rest ?c")
    from Cons.prems(2) False rl have eq: "required = r" "looked_up = anime_id # ls"
      by (auto simp: Let_def split: if_splits)
    from Cons.IH [OF le rl] show ?thesis
      unfolding eq by (auto split: if_splits)
  qed
qed

lemma needs_refresh_incomplete: "needs_refresh E db = incomplete unset_or_empty E db"
  by (auto simp: fun_eq_iff needs_refresh_def incomplete_def unset_or_empty_def GetSynopsis_def
      split: option.splits)

text \<open>
  C9 (as amended). \<open>IsRefreshRequired\<close> is true if and only if more than 20 identifiers
  of the membership list name a library record whose start date is not valid or whose
  synopsis is unset or empty: the test is \<^verbatim>\<open>GetSynopsis().empty()\<close>, which a synopsis
  that is present but empty passes as an unset one does. The identifiers the loop looks up
  are a prefix of the list: the whole list when the answer is false, and otherwise the
  prefix that ends with the 21st such record, after which nothing is looked up.
\<close>

theorem IsRefreshRequired_threshold:
  "IsRefreshRequired E w =
     (20 < length (filter (incomplete unset_or_empty E (AnimeDatabase_items w)) (items w))) \<and>
   (case refresh_loop E (AnimeDatabase_items w) (items w) 0 of
      (required, looked_up) \<Rightarrow>
        looked_up = take (length looked_up) (items w) \<and>
        (if required
         then length (filter (incomplete unset_or_empty E (AnimeDatabase_items w)) looked_up) = 21 \<and>
              looked_up \<noteq> [] \<and>
              incomplete unset_or_empty E (AnimeDatabase_items w) (last looked_up)
         else looked_up = items w))"
proof -
  obtain r ls where rl: "refresh_loop E (AnimeDatabase_items w) (items w) 0 = (r, ls)"
    by (cases "refresh_loop E (AnimeDatabase_items w) (items w) 0")
  have "(0::int) \<le> 20" by simp
  from refresh_loop_result [OF this rl] show ?thesis
    by (auto simp: IsRefreshRequired_def rl needs_refresh_incomplete)
qed

lemma incomplete_refresh_db:
  "incomplete unset_or_empty review_env refresh_db 8"
  "incomplete unset_or_empty review_env refresh_db 6"
  "incomplete unset_or_empty review_env refresh_db 7"
  "\<not> incomplete unset_or_empty review_env refresh_db 5"
  "\<not> incomplete (\<lambda>synopsis. synopsis = None) review_env refresh_db 7"
  by (simp_all add: incomplete_def unset_or_empty_def refresh_db_def review_defs sample_defs
        reference_defs)

lemma needs_refresh_refresh_db:
  "needs_refresh review_env refresh_db 8" "needs_refresh review_env refresh_db 6"
  "needs_refresh review_env refresh_db 7" "\<not> needs_refresh review_env refresh_db 5"
  by (simp_all add: needs_refresh_incomplete incomplete_refresh_db)

text \<open>The claim as it was stated fails: 21 identifiers name a record with a valid start
  date and a synopsis that is present but empty; none of them lacks a date or has an unset
  synopsis, and the answer is true.\<close>

theorem unset_synopsis_counterexample:
  "map (\<lambda>anime_id. map_option item_synopsis (FindItemById review_env refresh_db anime_id))
     empty_synopsis_items = replicate 21 (Some (Some [])) \<and>
   IsRefreshRequired review_env (review_world refresh_db empty_synopsis_items) \<and>
   length (filter (incomplete (\<lambda>synopsis. synopsis = None) review_env refresh_db)
     empty_synopsis_items) = 0"
proof -
  have "FindItemById review_env refresh_db 7 = Some ((dated_item 7 2018 4 9)\<lparr>item_synopsis := Some []\<rparr>)"
    by (simp add: refresh_db_def review_env_def reference_defs)
  moreover have "replicate 21 (Some (Some ([]::string))) = map (\<lambda>_. Some (Some [])) empty_synopsis_items"
    by (simp add: empty_synopsis_items_def eval_nat_numeral)
  ultimately have 1: "map (\<lambda>anime_id. map_option item_synopsis (FindItemById review_env refresh_db anime_id))
     empty_synopsis_items = replicate 21 (Some (Some []))"
    by (simp add: empty_synopsis_items_def)
  have 2: "IsRefreshRequired review_env (review_world refresh_db empty_synopsis_items)"
    by (simp add: IsRefreshRequired_def review_world_def SeasonDatabase_new_def
          empty_synopsis_items_def needs_refresh_refresh_db)
  have 3: "length (filter (incomplete (\<lambda>synopsis. synopsis = None) review_env refresh_db)
     empty_synopsis_items) = 0"
    by (simp add: empty_synopsis_items_def incomplete_refresh_db)
  from 1 2 3 show ?thesis by blast
qed

theorem IsRefreshRequired_threshold_witness:
  "IsRefreshRequired review_env (review_world refresh_db (incomplete_items @ [5, 8])) \<and>
   length (filter (incomplete unset_or_empty review_env refresh_db) (incomplete_items @ [5, 8])) = 22 \<and>
   refresh_loop review_env refresh_db (incomplete_items @ [5, 8]) 0 = (True, incomplete_items) \<and>
   length (filter (incomplete unset_or_empty review_env refresh_db) (5 # butlast incomplete_items)) = 20 \<and>
   \<not> IsRefreshRequired review_env (review_world refresh_db (5 # butlast incomplete_items))"
proof -
  have c: "length (filter (incomplete unset_or_empty review_env refresh_db) (incomplete_items @ [5, 8])) = 22"
    by (simp add: incomplete_items_def incomplete_refresh_db)
  have c': "length (filter (incomplete unset_or_empty review_env refresh_db) (5 # butlast incomplete_items)) = 20"
    by (simp add: incomplete_items_def incomplete_refresh_db)
  have l: "refresh_loop review_env refresh_db (incomplete_items @ [5, 8]) 0 = (True, incomplete_items)"
    by (simp add: incomplete_items_def needs_refresh_refresh_db)
  from IsRefreshRequired_threshold [of review_env "review_world refresh_db (incomplete_items @ [5, 8])"]
       IsRefreshRequired_threshold [of review_env "review_world refresh_db (5 # butlast incomplete_items)"]
       c c' l
  show ?thesis
    by (simp add: review_world_def SeasonDatabase_new_def)
qed

end
